theory Spec2Isabelle
  imports Complex_Main "HOL-Library.Multiset" "HOL-Library.Log_Nat"
begin

section \<open>Data model (shared/schema.ts)\<close>

text \<open>
  The two tables of the store. Every column is \<open>notNull\<close>; \<open>id\<close> is the serial primary
  key. The record fields carry the column names, prefixed where the two tables share a
  name (\<open>id\<close>, \<open>name\<close>).
\<close>

record Classroom =
  c_id :: int
  c_name :: string
  color :: string
  minAgeMonths :: int
  maxAgeMonths :: int
  capacity :: int
  ratio :: string

record Child =
  ch_id :: int
  ch_name :: string
  birthDate :: string
  enrollmentDate :: string

section \<open>The date library (date-fns)\<close>

text \<open>
  The dashboard imports \<open>format\<close>, \<open>addMonths\<close>, \<open>differenceInMonths\<close> and \<open>parseISO\<close> from
  the date-fns package, which is not part of the repository. The engine is therefore
  modelled over an arbitrary type \<open>'d\<close> of dates and a record of the four library
  functions. \<open>differenceInMonths\<close> yields \<open>None\<close> where the library yields \<open>NaN\<close> (an
  invalid date, for instance one parsed from a malformed string); \<open>formatMMMyy\<close> stands
  for \<open>format(_, "MMM yy")\<close>.
\<close>

record 'd datefns =
  differenceInMonths :: "'d \<Rightarrow> 'd \<Rightarrow> int option"
  parseISO :: "string \<Rightarrow> 'd"
  addMonths :: "'d \<Rightarrow> int \<Rightarrow> 'd"
  formatMMMyy :: "'d \<Rightarrow> string"

section \<open>Forecast engine (client/src/pages/Dashboard.tsx)\<close>

subsection \<open>Age and classroom of a child\<close>

definition getChildAgeInMonths :: "'d datefns \<Rightarrow> string \<Rightarrow> 'd \<Rightarrow> int option" where
  "getChildAgeInMonths F bd targetDate = differenceInMonths F targetDate (parseISO F bd)"

text \<open>
  The predicate passed to \<open>find\<close>: \<open>ageInMonths >= c.minAgeMonths && ageInMonths <
  c.maxAgeMonths\<close>. Both comparisons are false on \<open>NaN\<close>.
\<close>

definition inBand :: "int option \<Rightarrow> Classroom \<Rightarrow> bool" where
  "inBand ageInMonths c =
     (case ageInMonths of
        None \<Rightarrow> False
      | Some a \<Rightarrow> minAgeMonths c \<le> a \<and> a < maxAgeMonths c)"

definition getClassroomForChild ::
  "'d datefns \<Rightarrow> Child \<Rightarrow> 'd \<Rightarrow> Classroom list \<Rightarrow> int option" where
  "getClassroomForChild F child targetDate classrooms =
     (let ageInMonths = differenceInMonths F targetDate (parseISO F (birthDate child))
      in case find (inBand ageInMonths) classrooms of
           None \<Rightarrow> None
         | Some classroom \<Rightarrow> Some (c_id classroom))"

subsection \<open>Array.prototype.sort with a comparator\<close>

text \<open>
  \<open>sort\<close> is stable; a comparator result that is positive puts the second argument
  first, and a result that is zero, negative or \<open>NaN\<close> keeps the two in place. For a
  consistent comparator the outcome is the one of a stable insertion sort, which is the
  model here.
\<close>

fun insertBy :: "('a \<Rightarrow> 'a \<Rightarrow> int option) \<Rightarrow> 'a \<Rightarrow> 'a list \<Rightarrow> 'a list" where
  "insertBy cmp x [] = [x]"
| "insertBy cmp x (y # ys) =
     (case cmp x y of
        Some v \<Rightarrow> if 0 < v then y # insertBy cmp x ys else x # y # ys
      | None \<Rightarrow> x # y # ys)"

definition sortBy :: "('a \<Rightarrow> 'a \<Rightarrow> int option) \<Rightarrow> 'a list \<Rightarrow> 'a list" where
  "sortBy cmp xs = foldr (insertBy cmp) xs []"

text \<open>
  The comparator of the roster sort:
  \<open>getChildAgeInMonths(b.birthDate, forecastDate) - getChildAgeInMonths(a.birthDate,
  forecastDate)\<close>.
\<close>

definition ageDescending :: "'d datefns \<Rightarrow> 'd \<Rightarrow> Child \<Rightarrow> Child \<Rightarrow> int option" where
  "ageDescending F forecastDate a b =
     (case (getChildAgeInMonths F (birthDate b) forecastDate,
            getChildAgeInMonths F (birthDate a) forecastDate) of
        (Some y, Some x) \<Rightarrow> Some (y - x)
      | _ \<Rightarrow> None)"

subsection \<open>forecastStats\<close>

record ClassStats =
  enrolled :: "Child list"
  graduatingSoon :: "Child list"
  graduatingNextMonth :: nat

text \<open>\<open>(classroom.maxAgeMonths - ageNow) <= k\<close>; false when \<open>ageNow\<close> is \<open>NaN\<close>.\<close>

definition monthsLeftAtMost :: "Classroom \<Rightarrow> int option \<Rightarrow> int \<Rightarrow> bool" where
  "monthsLeftAtMost classroom ageNow k =
     (case ageNow of None \<Rightarrow> False | Some a \<Rightarrow> maxAgeMonths classroom - a \<le> k)"

text \<open>The first \<open>forEach\<close>: one empty entry per classroom, keyed by its id.\<close>

definition emptyStats :: "Classroom list \<Rightarrow> (int \<rightharpoonup> ClassStats)" where
  "emptyStats classrooms =
     fold (\<lambda>c stats. stats(c_id c \<mapsto>
             \<lparr>enrolled = [], graduatingSoon = [], graduatingNextMonth = 0\<rparr>))
          classrooms Map.empty"

text \<open>The body of \<open>children.forEach\<close>.\<close>

definition placeChild ::
  "'d datefns \<Rightarrow> 'd \<Rightarrow> Classroom list \<Rightarrow> Child \<Rightarrow> (int \<rightharpoonup> ClassStats) \<Rightarrow> (int \<rightharpoonup> ClassStats)"
  where
  "placeChild F forecastDate classrooms child stats =
     (case getClassroomForChild F child forecastDate classrooms of
        None \<Rightarrow> stats
      | Some classId \<Rightarrow>
          (case stats classId of
             None \<Rightarrow> stats
           | Some s \<Rightarrow>
               let s1 = s\<lparr>enrolled := enrolled s @ [child]\<rparr>;
                   ageNow = getChildAgeInMonths F (birthDate child) forecastDate
               in (case find (\<lambda>c. c_id c = classId) classrooms of
                     None \<Rightarrow> stats(classId \<mapsto> s1)
                   | Some classroom \<Rightarrow>
                       (if monthsLeftAtMost classroom ageNow 3 then
                          (let s2 = s1\<lparr>graduatingSoon := graduatingSoon s1 @ [child]\<rparr>
                           in (if monthsLeftAtMost classroom ageNow 1
                               then stats(classId \<mapsto>
                                      s2\<lparr>graduatingNextMonth := graduatingNextMonth s2 + 1\<rparr>)
                               else stats(classId \<mapsto> s2)))
                        else stats(classId \<mapsto> s1)))))"

text \<open>
  The last \<open>forEach\<close> sorts the roster of every key of \<open>stats\<close> in place; the order in
  which the keys are visited does not matter.
\<close>

definition sortRosters :: "'d datefns \<Rightarrow> 'd \<Rightarrow> (int \<rightharpoonup> ClassStats) \<Rightarrow> (int \<rightharpoonup> ClassStats)" where
  "sortRosters F forecastDate stats =
     (\<lambda>classId. case stats classId of
                  None \<Rightarrow> None
                | Some s \<Rightarrow> Some (s\<lparr>enrolled := sortBy (ageDescending F forecastDate) (enrolled s)\<rparr>))"

definition forecastStats ::
  "'d datefns \<Rightarrow> 'd \<Rightarrow> Classroom list \<Rightarrow> Child list \<Rightarrow> (int \<rightharpoonup> ClassStats)" where
  "forecastStats F forecastDate classrooms children =
     sortRosters F forecastDate
       (fold (placeChild F forecastDate classrooms) children (emptyStats classrooms))"

subsection \<open>trendData\<close>

record TrendPoint =
  pt_month :: string
  pt_enrolled :: nat
  pt_capacity :: int
  pt_isForecast :: bool

text \<open>
  The body of the inner \<open>children.forEach\<close>: \<open>monthStats[classId]++\<close>. The counter of
  every classroom id was set to 0 just before, and \<open>getClassroomForChild\<close> returns ids
  of listed classrooms only, so the counter is always there.
\<close>

definition countChild ::
  "'d datefns \<Rightarrow> 'd \<Rightarrow> Classroom list \<Rightarrow> Child \<Rightarrow> (int \<rightharpoonup> nat) \<Rightarrow> (int \<rightharpoonup> nat)" where
  "countChild F targetDate classrooms child monthStats =
     (case getClassroomForChild F child targetDate classrooms of
        None \<Rightarrow> monthStats
      | Some classId \<Rightarrow>
          (case monthStats classId of
             None \<Rightarrow> monthStats
           | Some n \<Rightarrow> monthStats(classId \<mapsto> n + 1)))"

definition monthStatsAt ::
  "'d datefns \<Rightarrow> 'd \<Rightarrow> Classroom list \<Rightarrow> Child list \<Rightarrow> (int \<rightharpoonup> nat)" where
  "monthStatsAt F targetDate classrooms children =
     fold (countChild F targetDate classrooms) children
       (fold (\<lambda>c monthStats. monthStats(c_id c \<mapsto> 0)) classrooms Map.empty)"

text \<open>The body of the last \<open>classrooms.forEach\<close> of a month: \<open>data[c.id].push({...})\<close>.\<close>

definition pointFor :: "string \<Rightarrow> (int \<rightharpoonup> nat) \<Rightarrow> int \<Rightarrow> Classroom \<Rightarrow> TrendPoint" where
  "pointFor monthLabel monthStats m c =
     \<lparr>pt_month = monthLabel,
      pt_enrolled = (case monthStats (c_id c) of Some n \<Rightarrow> n | None \<Rightarrow> 0),
      pt_capacity = capacity c,
      pt_isForecast = (0 < m)\<rparr>"

definition pushPoint ::
  "string \<Rightarrow> (int \<rightharpoonup> nat) \<Rightarrow> int \<Rightarrow> Classroom \<Rightarrow> (int \<rightharpoonup> TrendPoint list)
     \<Rightarrow> (int \<rightharpoonup> TrendPoint list)" where
  "pushPoint monthLabel monthStats m c data =
     (case data (c_id c) of
        None \<Rightarrow> data
      | Some points \<Rightarrow> data(c_id c \<mapsto> points @ [pointFor monthLabel monthStats m c]))"

text \<open>One round of \<open>for (let m = -12; m <= 12; m++)\<close>.\<close>

definition trendMonth ::
  "'d datefns \<Rightarrow> 'd \<Rightarrow> Classroom list \<Rightarrow> Child list \<Rightarrow> int \<Rightarrow> (int \<rightharpoonup> TrendPoint list)
     \<Rightarrow> (int \<rightharpoonup> TrendPoint list)" where
  "trendMonth F forecastDate classrooms children m data =
     (let targetDate = addMonths F forecastDate m;
          monthLabel = formatMMMyy F targetDate;
          monthStats = monthStatsAt F targetDate classrooms children
      in fold (pushPoint monthLabel monthStats m) classrooms data)"

definition trendData ::
  "'d datefns \<Rightarrow> 'd \<Rightarrow> Classroom list \<Rightarrow> Child list \<Rightarrow> (int \<rightharpoonup> TrendPoint list)" where
  "trendData F forecastDate classrooms children =
     fold (trendMonth F forecastDate classrooms children) [-12..12]
       (fold (\<lambda>c data. data(c_id c \<mapsto> [])) classrooms Map.empty)"

subsection \<open>Overall totals\<close>

text \<open>
  \<open>Object.values(forecastStats)\<close> visits every key of the object once; the keys are the
  ids of the classrooms. The sum does not depend on the order of the visit.
\<close>

definition statsKeys :: "Classroom list \<Rightarrow> int list" where
  "statsKeys classrooms = remdups (map c_id classrooms)"

definition totalCapacity :: "Classroom list \<Rightarrow> int" where
  "totalCapacity classrooms = fold (\<lambda>c sum. sum + capacity c) classrooms 0"

definition totalEnrolled :: "Classroom list \<Rightarrow> (int \<rightharpoonup> ClassStats) \<Rightarrow> int" where
  "totalEnrolled classrooms stats =
     fold (\<lambda>k sum. sum + (case stats k of Some s \<Rightarrow> int (length (enrolled s)) | None \<Rightarrow> 0))
       (statsKeys classrooms) 0"

definition totalVacancies :: "Classroom list \<Rightarrow> (int \<rightharpoonup> ClassStats) \<Rightarrow> int" where
  "totalVacancies classrooms stats = totalCapacity classrooms - totalEnrolled classrooms stats"

section \<open>JavaScript numbers\<close>

text \<open>
  The dashboard divides and multiplies in IEEE 754 double precision and compares the
  results with decimal literals. A finite number is held as the rational it denotes;
  \<open>toDouble\<close> rounds a rational to the nearest number with a 53-bit significand, ties
  to the even significand, which is what every arithmetic operation and every decimal
  literal of the language does to its exact result. The exponent range is left
  unbounded: overflow and gradual underflow need magnitudes above \<open>1.7E308\<close> or below
  \<open>2.3E-308\<close>, out of reach of quotients of row counts and of 32-bit integer columns.
\<close>

datatype jsnum = Finite rat | PosInfinity | NegInfinity | NaN

text \<open>For \<open>0 < x\<close>, the exponent \<open>e\<close> with \<open>2 ^ e \<le> x < 2 ^ (e + 1)\<close>.\<close>

definition floorLog2 :: "rat \<Rightarrow> int" where
  "floorLog2 x =
     (let (p, q) = quotient_of x; d = bitlen p - bitlen q
      in if 2 powi d \<le> x then d else d - 1)"

definition roundHalfEven :: "rat \<Rightarrow> int" where
  "roundHalfEven y =
     (let n = \<lfloor>y\<rfloor>; r = y - of_int n
      in if r < 1 / 2 then n else if 1 / 2 < r then n + 1 else if even n then n else n + 1)"

definition toDouble :: "rat \<Rightarrow> rat" where
  "toDouble x =
     (if x = 0 then 0
      else let ulp = 2 powi (floorLog2 \<bar>x\<bar> - 52)
           in sgn x * of_int (roundHalfEven (\<bar>x\<bar> / ulp)) * ulp)"

text \<open>
  \<open>a / b\<close> on two integer-valued numbers (counts and 32-bit columns, which are numbers
  exactly). Division by zero gives an infinity, and \<open>0 / 0\<close> gives \<open>NaN\<close>. A negative
  zero is not told apart from zero: no comparison sees the difference.
\<close>

definition jsDivide :: "int \<Rightarrow> int \<Rightarrow> jsnum" where
  "jsDivide a b =
     (if b = 0 then (if a = 0 then NaN else if 0 < a then PosInfinity else NegInfinity)
      else Finite (toDouble (of_int a / of_int b)))"

text \<open>\<open>x * k\<close> for a positive finite \<open>k\<close>.\<close>

fun jsTimes :: "jsnum \<Rightarrow> rat \<Rightarrow> jsnum" where
  "jsTimes (Finite x) k = Finite (toDouble (x * k))"
| "jsTimes PosInfinity k = PosInfinity"
| "jsTimes NegInfinity k = NegInfinity"
| "jsTimes NaN k = NaN"

text \<open>Comparisons with a finite number; every comparison with \<open>NaN\<close> is false.\<close>

fun jsGreater :: "jsnum \<Rightarrow> rat \<Rightarrow> bool" where
  "jsGreater (Finite x) k = (k < x)"
| "jsGreater PosInfinity k = True"
| "jsGreater NegInfinity k = False"
| "jsGreater NaN k = False"

fun jsGreaterEq :: "jsnum \<Rightarrow> rat \<Rightarrow> bool" where
  "jsGreaterEq (Finite x) k = (k \<le> x)"
| "jsGreaterEq PosInfinity k = True"
| "jsGreaterEq NegInfinity k = False"
| "jsGreaterEq NaN k = False"

fun jsLessEq :: "jsnum \<Rightarrow> rat \<Rightarrow> bool" where
  "jsLessEq (Finite x) k = (x \<le> k)"
| "jsLessEq PosInfinity k = False"
| "jsLessEq NegInfinity k = True"
| "jsLessEq NaN k = False"

text \<open>
  \<open>Math.round\<close>: the integer nearest to the argument, the larger one on a tie. It is
  computed on the number itself, with no rounding of \<open>x + 0.5\<close>.
\<close>

fun mathRound :: "jsnum \<Rightarrow> jsnum" where
  "mathRound (Finite x) = Finite (of_int \<lfloor>x + 1 / 2\<rfloor>)"
| "mathRound PosInfinity = PosInfinity"
| "mathRound NegInfinity = NegInfinity"
| "mathRound NaN = NaN"

subsection \<open>capacityInsights\<close>

text \<open>Template strings print an integer-valued number in decimal.\<close>

fun showNat :: "nat \<Rightarrow> string" where
  "showNat n =
     (if n < 10 then [''0123456789'' ! n]
      else showNat (n div 10) @ [''0123456789'' ! (n mod 10)])"

declare showNat.simps [simp del]

definition showInt :: "int \<Rightarrow> string" where
  "showInt i = (if i < 0 then ''-'' @ showNat (nat (- i)) else showNat (nat i))"

datatype InsightType = Critical | Warning | Opportunity

record Insight =
  i_type :: InsightType
  message :: string
  classroomId :: int

text \<open>
  The body of \<open>classrooms.forEach\<close> in \<open>capacityInsights\<close>. The literals \<open>0.9\<close> and
  \<open>0.6\<close> are the doubles nearest to 9/10 and 6/10.
\<close>

definition insightFor :: "(int \<rightharpoonup> ClassStats) \<Rightarrow> Classroom \<Rightarrow> Insight list \<Rightarrow> Insight list" where
  "insightFor stats c insights =
     (case stats (c_id c) of
        None \<Rightarrow> insights
      | Some s \<Rightarrow>
          (let enrolledN = int (length (enrolled s));
               r = jsDivide enrolledN (capacity c);
               vacancies = capacity c - enrolledN
           in if jsGreater r 1 then
                insights @
                  [\<lparr>i_type = Critical,
                    message = c_name c @ '' is over capacity by '' @ showInt \<bar>vacancies\<bar> @ '' spot''
                              @ (if \<bar>vacancies\<bar> \<noteq> 1 then ''s'' else '''') @ ''.'',
                    classroomId = c_id c\<rparr>]
              else if jsGreaterEq r (toDouble (9 / 10)) then
                insights @
                  [\<lparr>i_type = Warning,
                    message = c_name c @ '' is nearing capacity ('' @ showInt vacancies @ '' spot''
                              @ (if vacancies \<noteq> 1 then ''s'' else '''') @ '' left).'',
                    classroomId = c_id c\<rparr>]
              else if jsLessEq r (toDouble (6 / 10)) then
                insights @
                  [\<lparr>i_type = Opportunity,
                    message = c_name c @ '' has high availability ('' @ showInt vacancies
                              @ '' vacancies). Consider marketing.'',
                    classroomId = c_id c\<rparr>]
              else insights))"

definition capacityInsights :: "(int \<rightharpoonup> ClassStats) \<Rightarrow> Classroom list \<Rightarrow> Insight list" where
  "capacityInsights stats classrooms = fold (insightFor stats) classrooms []"

text \<open>
  The card of a classroom, in the rendering (\<open>classrooms.map\<close>), decides on its own
  whether the classroom is over capacity:
  \<open>stats = forecastStats[classroom.id] || { enrolled: [], ... }\<close>,
  \<open>enrolledCount = stats.enrolled.length\<close>,
  \<open>isOverCapacity = enrolledCount > classroom.capacity\<close>.
\<close>

definition isOverCapacity :: "(int \<rightharpoonup> ClassStats) \<Rightarrow> Classroom \<Rightarrow> bool" where
  "isOverCapacity stats classroom =
     (let enrolledCount =
            (case stats (c_id classroom) of None \<Rightarrow> 0 | Some s \<Rightarrow> int (length (enrolled s)))
      in capacity classroom < enrolledCount)"

text \<open>\<open>Math.round((totalEnrolled / totalCapacity) * 100)\<close>\<close>

definition totalCapacityPercentage :: "Classroom list \<Rightarrow> (int \<rightharpoonup> ClassStats) \<Rightarrow> jsnum" where
  "totalCapacityPercentage classrooms stats =
     mathRound (jsTimes (jsDivide (totalEnrolled classrooms stats) (totalCapacity classrooms)) 100)"

section \<open>Server (shared/schema.ts, server/storage.ts, server/routes.ts)\<close>

subsection \<open>Request bodies and the insert schema\<close>

text \<open>
  A request body, as \<open>express.json()\<close> hands it to the route. An object is the list of
  its entries, one per key.
\<close>

datatype json =
  JNull | JBool bool | JNumber rat | JString string | JArray "json list"
  | JObject "(string \<times> json) list"

text \<open>
  \<open>InsertClassroom\<close>: the columns of the table without the id, which
  \<open>insertClassroomSchema\<close> omits. \<open>Partial<InsertClassroom>\<close>: every field optional.
\<close>

record InsertClassroom =
  ins_name :: string
  ins_color :: string
  ins_minAgeMonths :: int
  ins_maxAgeMonths :: int
  ins_capacity :: int
  ins_ratio :: string

record ClassroomPatch =
  set_name :: "string option"
  set_color :: "string option"
  set_minAgeMonths :: "int option"
  set_maxAgeMonths :: "int option"
  set_capacity :: "int option"
  set_ratio :: "string option"

text \<open>
  \<open>createInsertSchema\<close> (drizzle-zod, outside the repository) derives the schema from
  the column declarations and from nothing else: a \<open>text(...).notNull()\<close> column must be
  a string, an \<open>integer(...).notNull()\<close> column must be a number that is an integer of the
  32-bit column range. The table declares no check on any column, so the schema has no
  other constraint; keys that are not columns are dropped.
\<close>

definition textColumn :: "json option \<Rightarrow> string option" where
  "textColumn v = (case v of Some (JString s) \<Rightarrow> Some s | _ \<Rightarrow> None)"

definition integerColumn :: "json option \<Rightarrow> int option" where
  "integerColumn v =
     (case v of
        Some (JNumber q) \<Rightarrow>
          if q = of_int \<lfloor>q\<rfloor> \<and> - 2147483648 \<le> q \<and> q \<le> 2147483647 then Some \<lfloor>q\<rfloor> else None
      | _ \<Rightarrow> None)"

definition insertClassroomSchema_safeParse :: "json \<Rightarrow> InsertClassroom option" where
  "insertClassroomSchema_safeParse body =
     (case body of
        JObject entries \<Rightarrow>
          Option.bind (textColumn (map_of entries ''name'')) (\<lambda>n.
          Option.bind (textColumn (map_of entries ''color'')) (\<lambda>col.
          Option.bind (integerColumn (map_of entries ''minAgeMonths'')) (\<lambda>mn.
          Option.bind (integerColumn (map_of entries ''maxAgeMonths'')) (\<lambda>mx.
          Option.bind (integerColumn (map_of entries ''capacity'')) (\<lambda>cap.
          Option.bind (textColumn (map_of entries ''ratio'')) (\<lambda>r.
            Some \<lparr>ins_name = n, ins_color = col, ins_minAgeMonths = mn,
                  ins_maxAgeMonths = mx, ins_capacity = cap, ins_ratio = r\<rparr>))))))
      | _ \<Rightarrow> None)"

text \<open>
  \<open>insertClassroomSchema.partial()\<close>: a key may be absent; a key that is present must
  have the type of its column. The outer \<open>None\<close> is a failed parse.
\<close>

definition optionalColumn :: "(json option \<Rightarrow> 'a option) \<Rightarrow> json option \<Rightarrow> 'a option option" where
  "optionalColumn column v = (case v of None \<Rightarrow> Some None | Some _ \<Rightarrow> map_option Some (column v))"

definition partialClassroomSchema_safeParse :: "json \<Rightarrow> ClassroomPatch option" where
  "partialClassroomSchema_safeParse body =
     (case body of
        JObject entries \<Rightarrow>
          Option.bind (optionalColumn textColumn (map_of entries ''name'')) (\<lambda>n.
          Option.bind (optionalColumn textColumn (map_of entries ''color'')) (\<lambda>col.
          Option.bind (optionalColumn integerColumn (map_of entries ''minAgeMonths'')) (\<lambda>mn.
          Option.bind (optionalColumn integerColumn (map_of entries ''maxAgeMonths'')) (\<lambda>mx.
          Option.bind (optionalColumn integerColumn (map_of entries ''capacity'')) (\<lambda>cap.
          Option.bind (optionalColumn textColumn (map_of entries ''ratio'')) (\<lambda>r.
            Some \<lparr>set_name = n, set_color = col, set_minAgeMonths = mn,
                  set_maxAgeMonths = mx, set_capacity = cap, set_ratio = r\<rparr>))))))
      | _ \<Rightarrow> None)"

subsection \<open>DatabaseStorage\<close>

text \<open>
  The state of the store, as far as classrooms go: the rows of the table in insertion
  order and the last value of the sequence behind the serial id.
\<close>

record Db =
  classroomRows :: "Classroom list"
  classroomIdSeq :: int

text \<open>
  What makes the promise of a storage call reject, as far as the data of the call
  decides it. The query builder (drizzle-orm, outside the repository) does not accept an
  update that sets no column: \<open>set\<close> throws \<open>No values to set\<close> (its early releases
  sent the statement with an empty \<open>SET\<close> list, which the database refuses as a syntax
  error). The database refuses a text value that holds a NUL byte (\<open>invalid byte sequence
  for encoding "UTF8": 0x00\<close>) when the parameters are bound, and an insert when the
  sequence behind the serial id has reached the end of the 32-bit range. In each case no
  row is touched. Failures of the connection are outside the model.
\<close>

datatype storageError = NoValuesToSet | InvalidByteSequence | SequenceExhausted

definition holdsNul :: "string \<Rightarrow> bool" where
  "holdsNul s \<longleftrightarrow> CHR 0x00 \<in> set s"

text \<open>\<open>db.insert(classrooms).values(classroom).returning()\<close>\<close>

definition createClassroom :: "InsertClassroom \<Rightarrow> Db \<Rightarrow> storageError + (Classroom \<times> Db)" where
  "createClassroom classroom db =
     (if holdsNul (ins_name classroom) \<or> holdsNul (ins_color classroom)
         \<or> holdsNul (ins_ratio classroom)
      then Inl InvalidByteSequence
      else if 2147483647 \<le> classroomIdSeq db then Inl SequenceExhausted
      else
        let created = \<lparr>c_id = classroomIdSeq db + 1, c_name = ins_name classroom,
                        color = ins_color classroom, minAgeMonths = ins_minAgeMonths classroom,
                        maxAgeMonths = ins_maxAgeMonths classroom, capacity = ins_capacity classroom,
                        ratio = ins_ratio classroom\<rparr>
        in Inr (created, db\<lparr>classroomRows := classroomRows db @ [created],
                            classroomIdSeq := classroomIdSeq db + 1\<rparr>))"

text \<open>\<open>SET\<close> of the columns the patch names.\<close>

definition applyPatch :: "ClassroomPatch \<Rightarrow> Classroom \<Rightarrow> Classroom" where
  "applyPatch data row =
     row\<lparr>c_name := (case set_name data of None \<Rightarrow> c_name row | Some v \<Rightarrow> v),
         color := (case set_color data of None \<Rightarrow> color row | Some v \<Rightarrow> v),
         minAgeMonths := (case set_minAgeMonths data of None \<Rightarrow> minAgeMonths row | Some v \<Rightarrow> v),
         maxAgeMonths := (case set_maxAgeMonths data of None \<Rightarrow> maxAgeMonths row | Some v \<Rightarrow> v),
         capacity := (case set_capacity data of None \<Rightarrow> capacity row | Some v \<Rightarrow> v),
         ratio := (case set_ratio data of None \<Rightarrow> ratio row | Some v \<Rightarrow> v)\<rparr>"

definition namesNoColumn :: "ClassroomPatch \<Rightarrow> bool" where
  "namesNoColumn data \<longleftrightarrow>
     set_name data = None \<and> set_color data = None \<and> set_minAgeMonths data = None \<and>
     set_maxAgeMonths data = None \<and> set_capacity data = None \<and> set_ratio data = None"

definition patchHoldsNul :: "ClassroomPatch \<Rightarrow> bool" where
  "patchHoldsNul data \<longleftrightarrow>
     (case set_name data of None \<Rightarrow> False | Some v \<Rightarrow> holdsNul v) \<or>
     (case set_color data of None \<Rightarrow> False | Some v \<Rightarrow> holdsNul v) \<or>
     (case set_ratio data of None \<Rightarrow> False | Some v \<Rightarrow> holdsNul v)"

text \<open>
  \<open>db.update(classrooms).set(data).where(eq(classrooms.id, id)).returning()\<close>, of which
  the first row is returned (\<open>undefined\<close>, here \<open>None\<close>, when there is none). \<open>set\<close>
  runs, and throws on a patch that names no column, before any statement is sent.
\<close>

definition updateClassroom ::
  "int \<Rightarrow> ClassroomPatch \<Rightarrow> Db \<Rightarrow> storageError + (Classroom option \<times> Db)" where
  "updateClassroom ident data db =
     (if namesNoColumn data then Inl NoValuesToSet
      else if patchHoldsNul data then Inl InvalidByteSequence
      else
        let rows = map (\<lambda>row. if c_id row = ident then applyPatch data row else row)
                     (classroomRows db)
        in Inr (case filter (\<lambda>row. c_id row = ident) rows of
                  [] \<Rightarrow> None
                | updated # _ \<Rightarrow> Some updated,
                db\<lparr>classroomRows := rows\<rparr>))"

subsection \<open>Routes\<close>

text \<open>
  What a handler answers: the status and, for 200 and 201, the record in the body.
  \<open>Unanswered\<close> is a handler whose promise was rejected before it sent anything.
\<close>

datatype reply =
  Status200 Classroom | Status201 Classroom | Status400 | Status404 | Unanswered

text \<open>\<open>app.post("/api/classrooms", ...)\<close>\<close>

definition postClassroom :: "json \<Rightarrow> Db \<Rightarrow> reply \<times> Db" where
  "postClassroom body db =
     (case insertClassroomSchema_safeParse body of
        None \<Rightarrow> (Status400, db)
      | Some data \<Rightarrow>
          (case createClassroom data db of
             Inl _ \<Rightarrow> (Unanswered, db)
           | Inr (classroom, db') \<Rightarrow> (Status201 classroom, db')))"

text \<open>
  \<open>app.patch("/api/classrooms/:id", ...)\<close>. The first argument is the value of
  \<open>parseInt(req.params.id)\<close>, \<open>None\<close> for \<open>NaN\<close>.
\<close>

definition patchClassroom :: "int option \<Rightarrow> json \<Rightarrow> Db \<Rightarrow> reply \<times> Db" where
  "patchClassroom ident body db =
     (case ident of
        None \<Rightarrow> (Status400, db)
      | Some i \<Rightarrow>
          (case partialClassroomSchema_safeParse body of
             None \<Rightarrow> (Status400, db)
           | Some data \<Rightarrow>
               (case updateClassroom i data db of
                  Inl _ \<Rightarrow> (Unanswered, db)
                | Inr (None, db') \<Rightarrow> (Status404, db')
                | Inr (Some updated, db') \<Rightarrow> (Status200 updated, db'))))"

section \<open>Notions used in the statements\<close>

text \<open>
  A child is flagged for classroom \<open>i\<close> with threshold \<open>k\<close> when it is assigned to \<open>i\<close>
  and the classroom found under that id has at most \<open>k\<close> months left for it.
\<close>

definition soonIn :: "'d datefns \<Rightarrow> 'd \<Rightarrow> Classroom list \<Rightarrow> int \<Rightarrow> int \<Rightarrow> Child \<Rightarrow> bool" where
  "soonIn F d cs k i child =
     (getClassroomForChild F child d cs = Some i \<and>
      (case find (\<lambda>c. c_id c = i) cs of None \<Rightarrow> False
       | Some c \<Rightarrow> monthsLeftAtMost c (getChildAgeInMonths F (birthDate child) d) k))"

text \<open>The sort key of a roster: the age, read as 0 where there is none.\<close>

definition ageKey :: "'d datefns \<Rightarrow> 'd \<Rightarrow> Child \<Rightarrow> int" where
  "ageKey F d ch = (case getChildAgeInMonths F (birthDate ch) d of Some a \<Rightarrow> a | None \<Rightarrow> 0)"

text \<open>
  The half-open band \<open>[minAgeMonths, maxAgeMonths)\<close> of a classroom contains an age; a
  child whose birth date gives no age is in no band.
\<close>

definition bandContains :: "Classroom \<Rightarrow> int option \<Rightarrow> bool" where
  "bandContains c age =
     (case age of None \<Rightarrow> False | Some a \<Rightarrow> a \<in> {minAgeMonths c ..< maxAgeMonths c})"

text \<open>Months until graduation: the classroom's \<open>maxAgeMonths\<close> minus the age in months.\<close>

definition monthsUntilGraduation :: "Classroom \<Rightarrow> int option \<Rightarrow> int option" where
  "monthsUntilGraduation c age = map_option (\<lambda>a. maxAgeMonths c - a) age"

definition graduatesWithin :: "int \<Rightarrow> Classroom \<Rightarrow> int option \<Rightarrow> bool" where
  "graduatesWithin k c age =
     (case monthsUntilGraduation c age of None \<Rightarrow> False | Some m \<Rightarrow> m \<le> k)"

text \<open>Descending age: the first child is at least as old as the second.\<close>

definition notYounger :: "'d datefns \<Rightarrow> 'd \<Rightarrow> Child \<Rightarrow> Child \<Rightarrow> bool" where
  "notYounger F d a b =
     (case (getChildAgeInMonths F (birthDate a) d, getChildAgeInMonths F (birthDate b) d) of
        (Some x, Some y) \<Rightarrow> y \<le> x
      | _ \<Rightarrow> False)"

text \<open>
  The enrolled count of a classroom id, \<open>forecastStats[c.id].enrolled.length\<close>, and the
  enrolled count of the \<open>k\<close>-th point of its trend series.
\<close>

definition enrolledCount :: "(int \<rightharpoonup> ClassStats) \<Rightarrow> int \<Rightarrow> nat" where
  "enrolledCount stats i = (case stats i of None \<Rightarrow> 0 | Some s \<Rightarrow> length (enrolled s))"

definition trendEnrolled :: "(int \<rightharpoonup> TrendPoint list) \<Rightarrow> int \<Rightarrow> nat \<Rightarrow> nat" where
  "trendEnrolled data i k =
     (case data i of None \<Rightarrow> 0 | Some points \<Rightarrow> if k < length points then pt_enrolled (points ! k) else 0)"

text \<open>
  The point the trend series should hold for a classroom at month offset \<open>m\<close>: the
  label of the shifted date, the enrolled count of the bucketing at the shifted date,
  the capacity of the classroom, and the flag for offsets above 0.
\<close>

definition pointAt ::
  "'d datefns \<Rightarrow> 'd \<Rightarrow> Classroom list \<Rightarrow> Child list \<Rightarrow> Classroom \<Rightarrow> int \<Rightarrow> TrendPoint" where
  "pointAt F forecastDate classrooms children c m =
     \<lparr>pt_month = formatMMMyy F (addMonths F forecastDate m),
      pt_enrolled = enrolledCount
         (forecastStats F (addMonths F forecastDate m) classrooms children) (c_id c),
      pt_capacity = capacity c,
      pt_isForecast = (0 < m)\<rparr>"

text \<open>
  A body that has every column of a classroom with the type of the column: an object
  whose \<open>name\<close>, \<open>color\<close> and \<open>ratio\<close> are strings and whose \<open>minAgeMonths\<close>,
  \<open>maxAgeMonths\<close> and \<open>capacity\<close> are integers of the 32-bit range. Nothing is asked
  of the values beyond their types.
\<close>

definition isString :: "json option \<Rightarrow> bool" where
  "isString v = (case v of Some (JString s) \<Rightarrow> True | _ \<Rightarrow> False)"

definition isInt32 :: "json option \<Rightarrow> bool" where
  "isInt32 v =
     (case v of
        Some (JNumber q) \<Rightarrow> of_int \<lfloor>q\<rfloor> = q \<and> - 2147483648 \<le> q \<and> q \<le> 2147483647
      | _ \<Rightarrow> False)"

definition wellTypedClassroomBody :: "json \<Rightarrow> bool" where
  "wellTypedClassroomBody body =
     (case body of
        JObject entries \<Rightarrow>
          isString (map_of entries ''name'') \<and> isString (map_of entries ''color'') \<and>
          isInt32 (map_of entries ''minAgeMonths'') \<and> isInt32 (map_of entries ''maxAgeMonths'') \<and>
          isInt32 (map_of entries ''capacity'') \<and> isString (map_of entries ''ratio'')
      | _ \<Rightarrow> False)"

section \<open>A date library instance for the examples\<close>

text \<open>
  The examples run the engine on a small calendar: a date is the first day of a month,
  held as the month number \<open>12 * year + (month - 1)\<close>, or is invalid (\<open>None\<close>). On such
  dates the whole-month difference is the difference of the month numbers, and adding
  months adds to the month number. Only strings of the shape \<open>yyyy-MM-01\<close> parse.
\<close>

definition digitValue :: "char \<Rightarrow> int option" where
  "digitValue ch =
     map_of [(CHR ''0'', 0), (CHR ''1'', 1), (CHR ''2'', 2), (CHR ''3'', 3), (CHR ''4'', 4),
             (CHR ''5'', 5), (CHR ''6'', 6), (CHR ''7'', 7), (CHR ''8'', 8), (CHR ''9'', 9)] ch"

definition firstOfMonth :: "string \<Rightarrow> int option" where
  "firstOfMonth s =
     (if length s = 10 \<and> s ! 4 = CHR ''-'' \<and> drop 7 s = ''-01'' then
        (case (those (map digitValue (take 4 s)), those (map digitValue (take 2 (drop 5 s)))) of
           (Some [a, b, c, d], Some [e, f]) \<Rightarrow>
             (let y = 1000 * a + 100 * b + 10 * c + d; m = 10 * e + f
              in if 1 \<le> m \<and> m \<le> 12 then Some (12 * y + (m - 1)) else None)
         | _ \<Rightarrow> None)
      else None)"

definition monthLabel :: "int option \<Rightarrow> string" where
  "monthLabel d =
     (case d of
        None \<Rightarrow> ''Invalid Date''
      | Some n \<Rightarrow>
          [''Jan'', ''Feb'', ''Mar'', ''Apr'', ''May'', ''Jun'',
           ''Jul'', ''Aug'', ''Sep'', ''Oct'', ''Nov'', ''Dec''] ! nat (n mod 12)
          @ '' '' @ [''0123456789'' ! nat ((n div 12) mod 100 div 10),
                     ''0123456789'' ! nat ((n div 12) mod 10)])"

definition monthCalendar :: "int option datefns" where
  "monthCalendar =
     \<lparr>differenceInMonths =
        (\<lambda>dateLeft dateRight.
           case (dateLeft, dateRight) of (Some l, Some r) \<Rightarrow> Some (l - r) | _ \<Rightarrow> None),
      parseISO = firstOfMonth,
      addMonths = (\<lambda>d m. case d of None \<Rightarrow> None | Some n \<Rightarrow> Some (n + m)),
      formatMMMyy = monthLabel\<rparr>"

text \<open>The classrooms of the seed script (server/seed.ts), with the ids the store gives them.\<close>

definition infants :: Classroom where
  "infants = \<lparr>c_id = 1, c_name = ''Infants'', color = ''blue'', minAgeMonths = 0,
              maxAgeMonths = 12, capacity = 8, ratio = ''1:4''\<rparr>"

definition wobblers :: Classroom where
  "wobblers = \<lparr>c_id = 2, c_name = ''Wobblers'', color = ''green'', minAgeMonths = 12,
               maxAgeMonths = 24, capacity = 10, ratio = ''1:5''\<rparr>"

definition toddlers :: Classroom where
  "toddlers = \<lparr>c_id = 3, c_name = ''Toddlers'', color = ''yellow'', minAgeMonths = 24,
               maxAgeMonths = 36, capacity = 14, ratio = ''1:7''\<rparr>"

text \<open>Five children, and the date the examples look at, 1 June 2025.\<close>

definition emma :: Child where
  "emma = \<lparr>ch_id = 1, ch_name = ''Emma S.'', birthDate = ''2024-07-01'',
           enrollmentDate = ''2024-11-01''\<rparr>"

definition liam :: Child where
  "liam = \<lparr>ch_id = 2, ch_name = ''Liam J.'', birthDate = ''2024-01-01'',
           enrollmentDate = ''2024-05-01''\<rparr>"

definition noah :: Child where
  "noah = \<lparr>ch_id = 3, ch_name = ''Noah W.'', birthDate = ''2020-03-01'',
           enrollmentDate = ''2020-09-01''\<rparr>"

definition ava :: Child where
  "ava = \<lparr>ch_id = 4, ch_name = ''Ava B.'', birthDate = ''2025-01-01'',
          enrollmentDate = ''2025-04-01''\<rparr>"

definition mia :: Child where
  "mia = \<lparr>ch_id = 5, ch_name = ''Mia G.'', birthDate = ''2024-12-01'',
          enrollmentDate = ''2025-03-01''\<rparr>"

definition june2025 :: "int option" where
  "june2025 = Some (12 * 2025 + 5)"

text \<open>A cohort of 23 children born on 1 July 2024.\<close>

definition cohort :: "Child list" where
  "cohort = map (\<lambda>k. \<lparr>ch_id = 100 + k, ch_name = ''Child'', birthDate = ''2024-07-01'',
                        enrollmentDate = ''2024-11-01''\<rparr>) [1..23]"

text \<open>A store holding the first two classrooms of the seed script, and an empty one.\<close>

definition seededDb :: Db where
  "seededDb = \<lparr>classroomRows = [infants, wobblers], classroomIdSeq = 2\<rparr>"

definition emptyDb :: Db where
  "emptyDb = \<lparr>classroomRows = [], classroomIdSeq = 0\<rparr>"

text \<open>The body \<open>{}\<close> parses to the patch that names no column.\<close>

definition emptyPatch :: ClassroomPatch where
  "emptyPatch = \<lparr>set_name = None, set_color = None, set_minAgeMonths = None,
                 set_maxAgeMonths = None, set_capacity = None, set_ratio = None\<rparr>"

text \<open>A well-typed body for \<open>POST /api/classrooms\<close> with the given capacity.\<close>

definition roomBody :: "int \<Rightarrow> json" where
  "roomBody cap =
     JObject [(''name'', JString ''Annex''), (''color'', JString ''grey''),
              (''minAgeMonths'', JNumber 0), (''maxAgeMonths'', JNumber 12),
              (''capacity'', JNumber (of_int cap)), (''ratio'', JString ''1:4'')]"

section \<open>Properties of the forecast engine\<close>

subsection \<open>Rosters\<close>


lemma fold_init_map:
  "fold (\<lambda>c m. m(f c \<mapsto> v)) cs m0 i = (if i \<in> f ` set cs then Some v else m0 i)"
  by (induction cs arbitrary: m0) auto

lemma emptyStats_eq:
  "emptyStats classrooms i =
     (if i \<in> c_id ` set classrooms
      then Some \<lparr>enrolled = [], graduatingSoon = [], graduatingNextMonth = 0\<rparr> else None)"
  unfolding emptyStats_def by (simp add: fold_init_map)

lemma getClassroomForChild_in_ids:
  "getClassroomForChild F child d cs = Some i \<Longrightarrow> i \<in> c_id ` set cs"
  by (auto simp: getClassroomForChild_def Let_def find_Some_iff split: option.splits)

lemma placeChild_None:
  "getClassroomForChild F ch d cs = None \<Longrightarrow> placeChild F d cs ch st = st"
  by (simp add: placeChild_def)

lemma placeChild_Some:
  assumes "getClassroomForChild F ch d cs = Some k" and "st k = Some s"
  shows "placeChild F d cs ch st =
     st(k \<mapsto> \<lparr>enrolled = enrolled s @ [ch],
               graduatingSoon = (if soonIn F d cs 3 k ch then graduatingSoon s @ [ch] else graduatingSoon s),
               graduatingNextMonth =
                 (if soonIn F d cs 3 k ch \<and> soonIn F d cs 1 k ch
                  then graduatingNextMonth s + 1 else graduatingNextMonth s)\<rparr>)"
  using assms
  by (cases s) (simp add: placeChild_def soonIn_def Let_def split: option.splits)



lemma placed_eq:
  "fold (placeChild F d cs) chs (emptyStats cs) i =
     (if i \<in> c_id ` set cs
      then Some \<lparr>enrolled = filter (\<lambda>ch. getClassroomForChild F ch d cs = Some i) chs,
                 graduatingSoon = filter (soonIn F d cs 3 i) chs,
                 graduatingNextMonth = length (filter (\<lambda>ch. soonIn F d cs 3 i ch \<and> soonIn F d cs 1 i ch) chs)\<rparr>
      else None)"
proof (induction chs arbitrary: i rule: rev_induct)
  case Nil
  show ?case by (simp add: emptyStats_eq)
next
  case (snoc ch chs)
  define st where "st = fold (placeChild F d cs) chs (emptyStats cs)"
  have IH: "st j =
     (if j \<in> c_id ` set cs
      then Some \<lparr>enrolled = filter (\<lambda>ch. getClassroomForChild F ch d cs = Some j) chs,
                 graduatingSoon = filter (soonIn F d cs 3 j) chs,
                 graduatingNextMonth = length (filter (\<lambda>ch. soonIn F d cs 3 j ch \<and> soonIn F d cs 1 j ch) chs)\<rparr>
      else None)" for j
    unfolding st_def by (rule snoc)
  have step: "fold (placeChild F d cs) (chs @ [ch]) (emptyStats cs) = placeChild F d cs ch st"
    by (simp add: st_def)
  show ?case
  proof (cases "getClassroomForChild F ch d cs")
    case None
    have "\<not> soonIn F d cs n i ch" for n
      using None by (simp add: soonIn_def)
    then show ?thesis
      unfolding step placeChild_None[OF None] IH by (simp add: None)
  next
    case (Some k)
    then have kin: "k \<in> c_id ` set cs" by (rule getClassroomForChild_in_ids)
    have stk: "st k = Some \<lparr>enrolled = filter (\<lambda>ch. getClassroomForChild F ch d cs = Some k) chs,
                 graduatingSoon = filter (soonIn F d cs 3 k) chs,
                 graduatingNextMonth = length (filter (\<lambda>ch. soonIn F d cs 3 k ch \<and> soonIn F d cs 1 k ch) chs)\<rparr>"
      using IH[of k] kin by simp
    note ps = placeChild_Some[where st = st, OF Some stk]
    show ?thesis
    proof (cases "i = k")
      case True
      show ?thesis
        unfolding step ps True
        using kin Some by simp
    next
      case False
      then have "\<not> soonIn F d cs n i ch" for n
        using Some by (simp add: soonIn_def)
      then show ?thesis
        unfolding step ps
        using False Some by (simp add: IH)
    qed
  qed
qed


subsection \<open>sort\<close>

lemma mset_insertBy: "mset (insertBy cmp x xs) = add_mset x (mset xs)"
  by (induction xs) (auto split: option.splits)

lemma mset_sortBy: "mset (sortBy cmp xs) = mset xs"
  unfolding sortBy_def by (induction xs) (auto simp: mset_insertBy)

lemma set_sortBy: "set (sortBy cmp xs) = set xs"
  by (metis mset_sortBy set_mset_mset)

lemma length_sortBy: "length (sortBy cmp xs) = length xs"
  by (metis mset_sortBy size_mset)

lemma set_insertBy: "set (insertBy cmp x xs) = insert x (set xs)"
  by (metis mset_insertBy set_mset_add_mset_insert set_mset_mset)

lemma sorted_insertBy:
  assumes "sorted_wrt (\<lambda>a b. key b \<le> key a) xs"
    and "\<forall>y \<in> set xs. cmp x y = Some (key y - key x)"
  shows "sorted_wrt (\<lambda>a b. key b \<le> (key a :: int)) (insertBy cmp x xs)"
  using assms
proof (induction xs)
  case Nil
  show ?case by simp
next
  case (Cons y ys)
  show ?case
  proof (cases "0 < key y - key x")
    case True
    then show ?thesis using Cons by (auto simp: set_insertBy)
  next
    case False
    then show ?thesis using Cons by fastforce
  qed
qed

lemma sorted_sortBy:
  assumes "\<forall>x \<in> set xs. \<forall>y \<in> set xs. cmp x y = Some (key y - key x)"
  shows "sorted_wrt (\<lambda>a b. key b \<le> (key a :: int)) (sortBy cmp xs)"
  using assms
proof (induction xs)
  case Nil
  show ?case by (simp add: sortBy_def)
next
  case (Cons x xs)
  have "sorted_wrt (\<lambda>a b. key b \<le> key a) (sortBy cmp xs)"
    using Cons by simp
  moreover have "\<forall>y \<in> set (sortBy cmp xs). cmp x y = Some (key y - key x)"
    using Cons.prems by (simp add: set_sortBy)
  ultimately have "sorted_wrt (\<lambda>a b. key b \<le> key a) (insertBy cmp x (sortBy cmp xs))"
    by (rule sorted_insertBy)
  then show ?case by (simp add: sortBy_def)
qed

subsection \<open>forecastStats, characterised\<close>

lemma forecastStats_eq:
  "forecastStats F d cs chs i =
     (if i \<in> c_id ` set cs
      then Some \<lparr>enrolled = sortBy (ageDescending F d)
                             (filter (\<lambda>ch. getClassroomForChild F ch d cs = Some i) chs),
                 graduatingSoon = filter (soonIn F d cs 3 i) chs,
                 graduatingNextMonth =
                   length (filter (\<lambda>ch. soonIn F d cs 3 i ch \<and> soonIn F d cs 1 i ch) chs)\<rparr>
      else None)"
  by (simp add: forecastStats_def sortRosters_def placed_eq)

lemma assigned_has_age:
  assumes "getClassroomForChild F ch d cs = Some i"
  shows "\<exists>a. getChildAgeInMonths F (birthDate ch) d = Some a"
proof -
  from assms obtain c where "find (inBand (getChildAgeInMonths F (birthDate ch) d)) cs = Some c"
    by (auto simp: getClassroomForChild_def getChildAgeInMonths_def Let_def split: option.splits)
  then have "inBand (getChildAgeInMonths F (birthDate ch) d) c"
    by (auto simp: find_Some_iff)
  then show ?thesis by (auto simp: inBand_def split: option.splits)
qed

lemma roster_sorted:
  "sorted_wrt (\<lambda>a b. ageKey F d b \<le> ageKey F d a)
     (sortBy (ageDescending F d) (filter (\<lambda>ch. getClassroomForChild F ch d cs = Some i) chs))"
proof (rule sorted_sortBy, intro ballI)
  fix x y
  assume "x \<in> set (filter (\<lambda>ch. getClassroomForChild F ch d cs = Some i) chs)"
    and "y \<in> set (filter (\<lambda>ch. getClassroomForChild F ch d cs = Some i) chs)"
  then obtain a b where "getChildAgeInMonths F (birthDate x) d = Some a"
    and "getChildAgeInMonths F (birthDate y) d = Some b"
    using assigned_has_age[of F x d cs i] assigned_has_age[of F y d cs i] by auto
  then show "ageDescending F d x y = Some (ageKey F d y - ageKey F d x)"
    by (simp add: ageDescending_def ageKey_def)
qed

subsection \<open>Assignment of a child to a classroom\<close>

lemma find_first_index:
  "find P xs = Some x \<longleftrightarrow> (\<exists>k<length xs. xs ! k = x \<and> P (xs ! k) \<and> (\<forall>j<k. \<not> P (xs ! j)))"
  by (auto simp: find_Some_iff)

lemma inBand_bandContains: "inBand age c = bandContains c age"
  by (simp add: inBand_def bandContains_def split: option.splits)

lemma roster_set:
  "forecastStats F d cs chs j = Some s \<Longrightarrow>
     set (enrolled s) = {ch \<in> set chs. getClassroomForChild F ch d cs = Some j}"
  by (auto simp: forecastStats_eq set_sortBy split: if_splits)

text \<open>
  Claim C1. The classroom of a child at a target date is the first classroom in list
  order whose half-open band \<open>[minAgeMonths, maxAgeMonths)\<close> contains the child's
  whole-month age at that date, and the child is on the roster of that classroom's id and
  of no other; if no band contains the age (or the birth date gives none), the child has
  no classroom and is on no roster.
\<close>
theorem assigned_to_first_containing_band:
  "(case getClassroomForChild F child targetDate classrooms of
      Some i \<Rightarrow>
        (\<exists>k < length classrooms.
            c_id (classrooms ! k) = i \<and>
            bandContains (classrooms ! k) (getChildAgeInMonths F (birthDate child) targetDate) \<and>
            (\<forall>j < k. \<not> bandContains (classrooms ! j)
                        (getChildAgeInMonths F (birthDate child) targetDate))) \<and>
        (\<forall>j s. forecastStats F targetDate classrooms children j = Some s \<longrightarrow>
            (child \<in> set (enrolled s) \<longleftrightarrow> j = i \<and> child \<in> set children))
    | None \<Rightarrow>
        (\<forall>c \<in> set classrooms.
            \<not> bandContains c (getChildAgeInMonths F (birthDate child) targetDate)) \<and>
        (\<forall>j s. forecastStats F targetDate classrooms children j = Some s \<longrightarrow>
            child \<notin> set (enrolled s)))"
proof (cases "getClassroomForChild F child targetDate classrooms")
  case None
  then have "find (inBand (getChildAgeInMonths F (birthDate child) targetDate)) classrooms = None"
    by (simp add: getClassroomForChild_def getChildAgeInMonths_def Let_def split: option.splits)
  then have "\<forall>c \<in> set classrooms.
      \<not> bandContains c (getChildAgeInMonths F (birthDate child) targetDate)"
    by (simp add: find_None_iff inBand_bandContains)
  moreover have "\<forall>j s. forecastStats F targetDate classrooms children j = Some s \<longrightarrow>
      child \<notin> set (enrolled s)"
    using None by (auto dest: roster_set)
  ultimately show ?thesis using None by simp
next
  case (Some i)
  then obtain c where c: "find (inBand (getChildAgeInMonths F (birthDate child) targetDate)) classrooms = Some c"
    and i: "c_id c = i"
    by (auto simp: getClassroomForChild_def getChildAgeInMonths_def Let_def split: option.splits)
  from c obtain k where "k < length classrooms" "classrooms ! k = c"
    "inBand (getChildAgeInMonths F (birthDate child) targetDate) (classrooms ! k)"
    "\<forall>j<k. \<not> inBand (getChildAgeInMonths F (birthDate child) targetDate) (classrooms ! j)"
    unfolding find_first_index by blast
  then have "\<exists>k < length classrooms.
            c_id (classrooms ! k) = i \<and>
            bandContains (classrooms ! k) (getChildAgeInMonths F (birthDate child) targetDate) \<and>
            (\<forall>j < k. \<not> bandContains (classrooms ! j)
                        (getChildAgeInMonths F (birthDate child) targetDate))"
    using i by (auto simp: inBand_bandContains)
  moreover have "\<forall>j s. forecastStats F targetDate classrooms children j = Some s \<longrightarrow>
            (child \<in> set (enrolled s) \<longleftrightarrow> j = i \<and> child \<in> set children)"
    using Some by (auto dest: roster_set)
  ultimately show ?thesis using Some by simp
qed

lemmas example_simps =
  getClassroomForChild_def getChildAgeInMonths_def inBand_def bandContains_def
  monthCalendar_def june2025_def firstOfMonth_def digitValue_def
  infants_def wobblers_def toddlers_def emma_def liam_def noah_def ava_def mia_def

theorem assigned_to_first_containing_band_witness:
  "(\<exists>k < length [toddlers, infants, wobblers].
       c_id ([toddlers, infants, wobblers] ! k) = 1 \<and>
       bandContains ([toddlers, infants, wobblers] ! k)
         (getChildAgeInMonths monthCalendar (birthDate emma) june2025) \<and>
       (\<forall>j < k. \<not> bandContains ([toddlers, infants, wobblers] ! j)
                   (getChildAgeInMonths monthCalendar (birthDate emma) june2025))) \<and>
   (\<exists>s. forecastStats monthCalendar june2025 [toddlers, infants, wobblers] [noah, emma] 1 = Some s \<and>
        emma \<in> set (enrolled s) \<and> noah \<notin> set (enrolled s)) \<and>
   (\<exists>s. forecastStats monthCalendar june2025 [toddlers, infants, wobblers] [noah, emma] 3 = Some s \<and>
        emma \<notin> set (enrolled s) \<and> noah \<notin> set (enrolled s))"
proof -
  have e: "getClassroomForChild monthCalendar emma june2025 [toddlers, infants, wobblers] = Some 1"
    by (simp add: example_simps)
  have n: "getClassroomForChild monthCalendar noah june2025 [toddlers, infants, wobblers] = None"
    by (simp add: example_simps)
  have s1: "\<exists>s. forecastStats monthCalendar june2025 [toddlers, infants, wobblers] [noah, emma] 1 = Some s"
    by (simp add: forecastStats_eq infants_def)
  have s3: "\<exists>s. forecastStats monthCalendar june2025 [toddlers, infants, wobblers] [noah, emma] 3 = Some s"
    by (simp add: forecastStats_eq toddlers_def)
  show ?thesis
    using assigned_to_first_containing_band
            [where F = monthCalendar and child = emma and targetDate = june2025
               and classrooms = "[toddlers, infants, wobblers]" and children = "[noah, emma]"]
          assigned_to_first_containing_band
            [where F = monthCalendar and child = noah and targetDate = june2025
               and classrooms = "[toddlers, infants, wobblers]" and children = "[noah, emma]"]
          s1 s3
    unfolding e n by auto
qed

subsection \<open>Graduation flags\<close>

lemma find_distinct_id:
  "distinct (map c_id cs) \<Longrightarrow> c \<in> set cs \<Longrightarrow> find (\<lambda>c'. c_id c' = c_id c) cs = Some c"
  by (induction cs) (auto simp: image_iff)

lemma length_filter_sortBy: "length (filter P (sortBy cmp xs)) = length (filter P xs)"
proof -
  have "mset (filter P (sortBy cmp xs)) = mset (filter P xs)"
    by (simp add: mset_sortBy)
  then show ?thesis by (metis size_mset)
qed

lemma soonIn_distinct:
  assumes "distinct (map c_id cs)" and "c \<in> set cs"
  shows "soonIn F d cs k (c_id c) ch =
     (getClassroomForChild F ch d cs = Some (c_id c) \<and>
      graduatesWithin k c (getChildAgeInMonths F (birthDate ch) d))"
  by (simp add: soonIn_def find_distinct_id[OF assms] graduatesWithin_def
      monthsUntilGraduation_def monthsLeftAtMost_def split: option.splits)

text \<open>
  Claim C5. For every child on the roster of a classroom, with months until graduation
  the classroom's \<open>maxAgeMonths\<close> minus the child's whole-month age: the child is in
  the graduating-soon list exactly when that number is at most 3, the graduating-soon
  children are all on the roster, and the graduating-next-month badge counts the roster
  children for whom it is at most 1. (Classroom ids are the primary key of the table,
  hence distinct.)
\<close>
theorem graduating_soon_and_next_month:
  assumes "distinct (map c_id classrooms)" and "c \<in> set classrooms"
  shows "\<exists>s. forecastStats F targetDate classrooms children (c_id c) = Some s \<and>
      (\<forall>child \<in> set (enrolled s).
          \<exists>age m. getChildAgeInMonths F (birthDate child) targetDate = Some age \<and>
                  monthsUntilGraduation c (Some age) = Some m \<and> m = maxAgeMonths c - age \<and>
                  (child \<in> set (graduatingSoon s) \<longleftrightarrow> m \<le> 3)) \<and>
      set (graduatingSoon s) \<subseteq> set (enrolled s) \<and>
      graduatingNextMonth s =
        length (filter (\<lambda>child. graduatesWithin 1 c
                          (getChildAgeInMonths F (birthDate child) targetDate)) (enrolled s))"
proof -
  let ?assigned = "\<lambda>ch. getClassroomForChild F ch targetDate classrooms = Some (c_id c)"
  let ?within = "\<lambda>k ch. graduatesWithin k c (getChildAgeInMonths F (birthDate ch) targetDate)"
  define s where "s = \<lparr>enrolled = sortBy (ageDescending F targetDate) (filter ?assigned children),
       graduatingSoon = filter (soonIn F targetDate classrooms 3 (c_id c)) children,
       graduatingNextMonth = length (filter (\<lambda>ch. soonIn F targetDate classrooms 3 (c_id c) ch \<and>
                                 soonIn F targetDate classrooms 1 (c_id c) ch) children)\<rparr>"
  have fs: "forecastStats F targetDate classrooms children (c_id c) = Some s"
    using assms(2) by (simp add: forecastStats_eq s_def)
  have soon: "soonIn F targetDate classrooms k (c_id c) ch = (?assigned ch \<and> ?within k ch)" for k ch
    by (rule soonIn_distinct[OF assms])
  have en: "set (enrolled s) = {ch \<in> set children. ?assigned ch}"
    by (simp add: s_def set_sortBy)
  have gs: "set (graduatingSoon s) = {ch \<in> set children. ?assigned ch \<and> ?within 3 ch}"
    by (simp add: s_def soon)
  have a: "\<forall>child \<in> set (enrolled s).
          \<exists>age m. getChildAgeInMonths F (birthDate child) targetDate = Some age \<and>
                  monthsUntilGraduation c (Some age) = Some m \<and> m = maxAgeMonths c - age \<and>
                  (child \<in> set (graduatingSoon s) \<longleftrightarrow> m \<le> 3)"
  proof
    fix child assume "child \<in> set (enrolled s)"
    then have ch: "child \<in> set children" "?assigned child" by (simp_all add: en)
    then obtain age where age: "getChildAgeInMonths F (birthDate child) targetDate = Some age"
      using assigned_has_age[OF ch(2)] by auto
    have "child \<in> set (graduatingSoon s) \<longleftrightarrow> maxAgeMonths c - age \<le> 3"
      using ch by (simp add: gs age graduatesWithin_def monthsUntilGraduation_def)
    then show "\<exists>age m. getChildAgeInMonths F (birthDate child) targetDate = Some age \<and>
                  monthsUntilGraduation c (Some age) = Some m \<and> m = maxAgeMonths c - age \<and>
                  (child \<in> set (graduatingSoon s) \<longleftrightarrow> m \<le> 3)"
      using age by (simp add: monthsUntilGraduation_def)
  qed
  have b: "set (graduatingSoon s) \<subseteq> set (enrolled s)"
    by (auto simp: en gs)
  have w13: "?within 1 ch \<Longrightarrow> ?within 3 ch" for ch
    by (auto simp: graduatesWithin_def split: option.splits)
  have "graduatingNextMonth s = length (filter (\<lambda>ch. ?assigned ch \<and> ?within 1 ch) children)"
    unfolding s_def using w13 by (auto simp: soon intro!: arg_cong[where f = length] filter_cong)
  also have "\<dots> = length (filter (?within 1) (filter ?assigned children))"
    by (simp add: conj_commute)
  also have "\<dots> = length (filter (?within 1) (enrolled s))"
    by (simp add: s_def length_filter_sortBy)
  finally have c: "graduatingNextMonth s = length (filter (?within 1) (enrolled s))" .
  from fs a b c show ?thesis by blast
qed

theorem graduating_soon_and_next_month_witness:
  "distinct (map c_id [infants, wobblers]) \<and> infants \<in> set [infants, wobblers] \<and>
   minAgeMonths infants = 0 \<and> maxAgeMonths infants = 12 \<and>
   getChildAgeInMonths monthCalendar (birthDate emma) june2025 = Some 11 \<and>
   monthsUntilGraduation infants (Some 11) = Some 1 \<and>
   (\<exists>s. forecastStats monthCalendar june2025 [infants, wobblers] [ava, liam, emma] (c_id infants) = Some s \<and>
        enrolled s = [emma, ava] \<and>
        emma \<in> set (graduatingSoon s) \<and> ava \<notin> set (graduatingSoon s) \<and>
        graduatingNextMonth s = 1)"
proof -
  have d: "distinct (map c_id [infants, wobblers])" and i: "infants \<in> set [infants, wobblers]"
    by (simp_all add: infants_def wobblers_def)
  have ages: "getChildAgeInMonths monthCalendar (birthDate emma) june2025 = Some 11"
    "getChildAgeInMonths monthCalendar (birthDate ava) june2025 = Some 5"
    "getChildAgeInMonths monthCalendar (birthDate liam) june2025 = Some 17"
    by (simp_all add: example_simps)
  have cls: "getClassroomForChild monthCalendar emma june2025 [infants, wobblers] = Some 1"
    "getClassroomForChild monthCalendar ava june2025 [infants, wobblers] = Some 1"
    "getClassroomForChild monthCalendar liam june2025 [infants, wobblers] = Some 2"
    by (simp_all add: example_simps)
  have ne: "emma \<noteq> ava" by (simp add: emma_def ava_def)
  have cid: "c_id infants = 1" by (simp add: infants_def)
  have en: "\<And>s. forecastStats monthCalendar june2025 [infants, wobblers] [ava, liam, emma] (c_id infants) = Some s
      \<Longrightarrow> enrolled s = [emma, ava]"
    by (auto simp: forecastStats_eq cid cls sortBy_def ageDescending_def ages)
  from graduating_soon_and_next_month[OF d i, of monthCalendar june2025 "[ava, liam, emma]"]
  obtain s where s: "forecastStats monthCalendar june2025 [infants, wobblers] [ava, liam, emma] (c_id infants) = Some s"
    and soon: "\<forall>child \<in> set (enrolled s).
          \<exists>age m. getChildAgeInMonths monthCalendar (birthDate child) june2025 = Some age \<and>
                  monthsUntilGraduation infants (Some age) = Some m \<and> m = maxAgeMonths infants - age \<and>
                  (child \<in> set (graduatingSoon s) \<longleftrightarrow> m \<le> 3)"
    and nm: "graduatingNextMonth s =
        length (filter (\<lambda>child. graduatesWithin 1 infants
                          (getChildAgeInMonths monthCalendar (birthDate child) june2025)) (enrolled s))"
    by blast
  have e: "enrolled s = [emma, ava]" using en[OF s] .
  have "emma \<in> set (graduatingSoon s)" "ava \<notin> set (graduatingSoon s)"
    using soon by (simp_all add: e ages infants_def)
  moreover have "graduatingNextMonth s = 1"
    unfolding nm e by (simp add: ages graduatesWithin_def monthsUntilGraduation_def infants_def)
  ultimately show ?thesis
    using d i s e ages by (simp add: monthsUntilGraduation_def infants_def)
qed

subsection \<open>Order of the roster\<close>

lemma sorted_wrt_notYounger:
  assumes "sorted_wrt (\<lambda>a b. ageKey F d b \<le> ageKey F d a) xs"
    and "\<forall>x \<in> set xs. \<exists>a. getChildAgeInMonths F (birthDate x) d = Some a"
  shows "sorted_wrt (notYounger F d) xs"
proof (rule sorted_wrt_mono_rel[OF _ assms(1)])
  fix x y assume "x \<in> set xs" "y \<in> set xs" "ageKey F d y \<le> ageKey F d x"
  moreover obtain a b where "getChildAgeInMonths F (birthDate x) d = Some a"
    "getChildAgeInMonths F (birthDate y) d = Some b"
    using assms(2) \<open>x \<in> set xs\<close> \<open>y \<in> set xs\<close> by blast
  ultimately show "notYounger F d x y"
    by (simp add: notYounger_def ageKey_def)
qed

text \<open>
  Claim C7. Reordering the child list leaves the membership of every roster unchanged,
  and every roster is sorted by descending whole-month age at the target date.
\<close>
theorem roster_order_independent_and_sorted:
  assumes "mset children' = mset children"
  shows "map_option (\<lambda>s. set (enrolled s)) (forecastStats F targetDate classrooms children' i) =
         map_option (\<lambda>s. set (enrolled s)) (forecastStats F targetDate classrooms children i) \<and>
         (case forecastStats F targetDate classrooms children i of
            None \<Rightarrow> i \<notin> c_id ` set classrooms
          | Some s \<Rightarrow> sorted_wrt (notYounger F targetDate) (enrolled s))"
proof -
  have "set children' = set children"
    using assms by (metis set_mset_mset)
  then have a: "map_option (\<lambda>s. set (enrolled s)) (forecastStats F targetDate classrooms children' i) =
         map_option (\<lambda>s. set (enrolled s)) (forecastStats F targetDate classrooms children i)"
    by (simp add: forecastStats_eq set_sortBy)
  have b: "sorted_wrt (notYounger F targetDate)
     (sortBy (ageDescending F targetDate)
        (filter (\<lambda>ch. getClassroomForChild F ch targetDate classrooms = Some i) children))"
  proof (rule sorted_wrt_notYounger[OF roster_sorted], intro ballI)
    fix x
    assume "x \<in> set (sortBy (ageDescending F targetDate)
        (filter (\<lambda>ch. getClassroomForChild F ch targetDate classrooms = Some i) children))"
    then have "getClassroomForChild F x targetDate classrooms = Some i"
      by (simp add: set_sortBy)
    then show "\<exists>a. getChildAgeInMonths F (birthDate x) targetDate = Some a"
      by (rule assigned_has_age)
  qed
  show ?thesis using a b by (simp add: forecastStats_eq)
qed

theorem roster_order_independent_and_sorted_witness:
  "mset [emma, liam, ava] = mset [ava, liam, emma] \<and>
   (\<exists>s s'. forecastStats monthCalendar june2025 [infants, wobblers] [ava, liam, emma] 1 = Some s \<and>
       forecastStats monthCalendar june2025 [infants, wobblers] [emma, liam, ava] 1 = Some s' \<and>
       set (enrolled s') = set (enrolled s) \<and> sorted_wrt (notYounger monthCalendar june2025) (enrolled s))"
proof -
  have m: "mset [emma, liam, ava] = mset [ava, liam, emma]"
    by (simp add: add_mset_commute)
  have cid: "c_id infants = 1" by (simp add: infants_def)
  obtain s where s: "forecastStats monthCalendar june2025 [infants, wobblers] [ava, liam, emma] 1 = Some s"
    by (simp add: forecastStats_eq cid)
  obtain s' where s': "forecastStats monthCalendar june2025 [infants, wobblers] [emma, liam, ava] 1 = Some s'"
    by (simp add: forecastStats_eq cid)
  show ?thesis
    using roster_order_independent_and_sorted[OF m, of monthCalendar june2025 "[infants, wobblers]" 1]
      m s s' by simp
qed

subsection \<open>Trend series\<close>

lemma countChild_None:
  "getClassroomForChild F ch d cs = None \<Longrightarrow> countChild F d cs ch ms = ms"
  by (simp add: countChild_def)

lemma countChild_Some:
  "getClassroomForChild F ch d cs = Some k \<Longrightarrow> ms k = Some n \<Longrightarrow>
     countChild F d cs ch ms = ms(k \<mapsto> n + 1)"
  by (simp add: countChild_def)

lemma monthStatsAt_eq:
  "monthStatsAt F d cs chs i =
     (if i \<in> c_id ` set cs
      then Some (length (filter (\<lambda>ch. getClassroomForChild F ch d cs = Some i) chs))
      else None)"
proof (induction chs arbitrary: i rule: rev_induct)
  case Nil
  show ?case by (simp add: monthStatsAt_def fold_init_map)
next
  case (snoc ch chs)
  define ms where "ms = monthStatsAt F d cs chs"
  have IH: "ms j = (if j \<in> c_id ` set cs
      then Some (length (filter (\<lambda>ch. getClassroomForChild F ch d cs = Some j) chs))
      else None)" for j
    unfolding ms_def by (rule snoc)
  have step: "monthStatsAt F d cs (chs @ [ch]) = countChild F d cs ch ms"
    by (simp add: monthStatsAt_def ms_def)
  show ?case
  proof (cases "getClassroomForChild F ch d cs")
    case None
    show ?thesis
      unfolding step countChild_None[OF None] IH by (simp add: None)
  next
    case (Some k)
    then have kin: "k \<in> c_id ` set cs" by (rule getClassroomForChild_in_ids)
    have msk: "ms k = Some (length (filter (\<lambda>ch. getClassroomForChild F ch d cs = Some k) chs))"
      using IH[of k] kin by simp
    note cs = countChild_Some[where ms = ms, OF Some msk]
    show ?thesis
      unfolding step cs using kin Some by (simp add: IH)
  qed
qed

lemma monthStatsAt_enrolledCount:
  "(case monthStatsAt F d cs chs i of Some n \<Rightarrow> n | None \<Rightarrow> 0) =
     enrolledCount (forecastStats F d cs chs) i"
  by (simp add: monthStatsAt_eq forecastStats_eq enrolledCount_def length_sortBy)

lemma fold_pushPoint:
  "fold (pushPoint l ms m) cs data i =
     map_option (\<lambda>points. points @ map (pointFor l ms m) (filter (\<lambda>c. c_id c = i) cs)) (data i)"
proof (induction cs arbitrary: data)
  case Nil
  show ?case by (simp add: option.map_ident)
next
  case (Cons c cs)
  have "fold (pushPoint l ms m) (c # cs) data i =
        fold (pushPoint l ms m) cs (pushPoint l ms m c data) i"
    by simp
  also have "\<dots> = map_option
       (\<lambda>points. points @ map (pointFor l ms m) (filter (\<lambda>c. c_id c = i) cs))
       (pushPoint l ms m c data i)"
    by (rule Cons)
  also have "\<dots> = map_option
       (\<lambda>points. points @ map (pointFor l ms m) (filter (\<lambda>c. c_id c = i) (c # cs)))
       (data i)"
    by (cases "data (c_id c)") (auto simp: pushPoint_def)
  finally show ?case .
qed

lemma trendMonth_eq:
  "trendMonth F fd cs chs m data i =
     map_option (\<lambda>points. points @ map (\<lambda>c. pointAt F fd cs chs c m) (filter (\<lambda>c. c_id c = i) cs))
       (data i)"
proof -
  have "pointFor (formatMMMyy F (addMonths F fd m)) (monthStatsAt F (addMonths F fd m) cs chs) m =
        (\<lambda>c. pointAt F fd cs chs c m)"
    by (rule ext) (simp add: pointFor_def pointAt_def monthStatsAt_enrolledCount)
  then show ?thesis
    by (simp add: trendMonth_def Let_def fold_pushPoint)
qed

lemma fold_trendMonth:
  "fold (trendMonth F fd cs chs) ms data i =
     map_option (\<lambda>points. points @
        concat (map (\<lambda>m. map (\<lambda>c. pointAt F fd cs chs c m) (filter (\<lambda>c. c_id c = i) cs)) ms))
       (data i)"
proof (induction ms arbitrary: data)
  case Nil
  show ?case by (simp add: option.map_ident)
next
  case (Cons m ms)
  have "fold (trendMonth F fd cs chs) (m # ms) data i =
        fold (trendMonth F fd cs chs) ms (trendMonth F fd cs chs m data) i"
    by simp
  also have "\<dots> = map_option (\<lambda>points. points @
        concat (map (\<lambda>m. map (\<lambda>c. pointAt F fd cs chs c m) (filter (\<lambda>c. c_id c = i) cs)) ms))
       (trendMonth F fd cs chs m data i)"
    by (rule Cons)
  also have "\<dots> = map_option (\<lambda>points. points @
        concat (map (\<lambda>m. map (\<lambda>c. pointAt F fd cs chs c m) (filter (\<lambda>c. c_id c = i) cs)) (m # ms)))
       (data i)"
    by (cases "data i") (simp_all add: trendMonth_eq)
  finally show ?case .
qed

lemma trendData_eq:
  "trendData F fd cs chs i =
     (if i \<in> c_id ` set cs
      then Some (concat (map (\<lambda>m. map (\<lambda>c. pointAt F fd cs chs c m)
                                    (filter (\<lambda>c. c_id c = i) cs)) [-12..12]))
      else None)"
  unfolding trendData_def fold_trendMonth by (simp add: fold_init_map)

lemma filter_distinct_id:
  "distinct (map c_id cs) \<Longrightarrow> c \<in> set cs \<Longrightarrow> filter (\<lambda>c'. c_id c' = c_id c) cs = [c]"
  by (induction cs) (auto simp: image_iff filter_empty_conv)

lemma trendData_distinct:
  assumes "distinct (map c_id cs)" and "c \<in> set cs"
  shows "trendData F fd cs chs (c_id c) = Some (map (pointAt F fd cs chs c) [-12..12])"
proof -
  have "concat (map (\<lambda>m. [pointAt F fd cs chs c m]) ms) = map (pointAt F fd cs chs c) ms" for ms
    by (induction ms) simp_all
  then show ?thesis
    using assms(2) by (simp add: trendData_eq filter_distinct_id[OF assms])
qed

text \<open>
  Claim C4. The trend series of a classroom has exactly 25 points, one per month offset
  from -12 to 12 in this order. The point of offset \<open>m\<close> carries the label of the
  shifted date, the enrolled count that \<open>forecastStats\<close> gives the classroom at the
  shifted date, the capacity of the classroom, and a forecast flag that is set exactly
  when \<open>0 < m\<close>. (Classroom ids are the primary key of the table, hence distinct.)
\<close>
theorem trend_series_25_points:
  assumes "distinct (map c_id classrooms)" and "c \<in> set classrooms"
  shows "\<exists>points. trendData F forecastDate classrooms children (c_id c) = Some points \<and>
     length points = 25 \<and>
     points = map (\<lambda>m. \<lparr>pt_month = formatMMMyy F (addMonths F forecastDate m),
                         pt_enrolled = enrolledCount
                           (forecastStats F (addMonths F forecastDate m) classrooms children) (c_id c),
                         pt_capacity = capacity c,
                         pt_isForecast = (0 < m)\<rparr>) [-12..12]"
  using trendData_distinct[OF assms, of F forecastDate children]
  by (simp add: pointAt_def[abs_def])

theorem trend_series_25_points_witness:
  "distinct (map c_id [infants, wobblers]) \<and> infants \<in> set [infants, wobblers] \<and>
   (\<exists>points. trendData monthCalendar june2025 [infants, wobblers] [ava, liam, emma] (c_id infants)
        = Some points \<and>
      length points = 25 \<and>
      points ! 0 = \<lparr>pt_month = ''Jun 24'', pt_enrolled = 1, pt_capacity = 8, pt_isForecast = False\<rparr> \<and>
      points ! 12 = \<lparr>pt_month = ''Jun 25'', pt_enrolled = 2, pt_capacity = 8, pt_isForecast = False\<rparr> \<and>
      points ! 13 = \<lparr>pt_month = ''Jul 25'', pt_enrolled = 1, pt_capacity = 8, pt_isForecast = True\<rparr> \<and>
      points ! 24 = \<lparr>pt_month = ''Jun 26'', pt_enrolled = 0, pt_capacity = 8, pt_isForecast = True\<rparr>)"
proof -
  have d: "distinct (map c_id [infants, wobblers])" and i: "infants \<in> set [infants, wobblers]"
    by (simp_all add: infants_def wobblers_def)
  have cid: "c_id infants = 1" and cap: "capacity infants = 8" by (simp_all add: infants_def)
  have dates: "addMonths monthCalendar june2025 m = Some (24305 + m)"
    "formatMMMyy monthCalendar = monthLabel" for m
    by (simp_all add: monthCalendar_def june2025_def)
  have cnt: "enrolledCount (forecastStats monthCalendar (Some n)
                 [infants, wobblers] [ava, liam, emma]) 1 =
       length (filter (\<lambda>b. 0 \<le> n - b \<and> n - b < 12) [24300, 24288, 24294])" for n
    by (simp add: enrolledCount_def forecastStats_eq cid length_sortBy example_simps)
  from trend_series_25_points[OF d i, of monthCalendar june2025 "[ava, liam, emma]"]
  obtain points where p: "trendData monthCalendar june2025 [infants, wobblers] [ava, liam, emma] (c_id infants)
        = Some points" and l: "length points = 25"
    and e: "points = map (\<lambda>m. \<lparr>pt_month = formatMMMyy monthCalendar (addMonths monthCalendar june2025 m),
                         pt_enrolled = enrolledCount
                           (forecastStats monthCalendar (addMonths monthCalendar june2025 m)
                              [infants, wobblers] [ava, liam, emma]) (c_id infants),
                         pt_capacity = capacity infants,
                         pt_isForecast = (0 < m)\<rparr>) [-12..12]"
    by blast
  have "points ! 0 = \<lparr>pt_month = ''Jun 24'', pt_enrolled = 1, pt_capacity = 8, pt_isForecast = False\<rparr>"
    "points ! 12 = \<lparr>pt_month = ''Jun 25'', pt_enrolled = 2, pt_capacity = 8, pt_isForecast = False\<rparr>"
    "points ! 13 = \<lparr>pt_month = ''Jul 25'', pt_enrolled = 1, pt_capacity = 8, pt_isForecast = True\<rparr>"
    "points ! 24 = \<lparr>pt_month = ''Jun 26'', pt_enrolled = 0, pt_capacity = 8, pt_isForecast = True\<rparr>"
    unfolding e by (simp_all add: dates cid cap cnt monthLabel_def)
  then show ?thesis using d i p l by blast
qed

subsection \<open>No child is counted twice\<close>

lemma sum_list_indicator_notin:
  "v \<notin> Some ` set xs \<Longrightarrow> (\<Sum>x\<leftarrow>xs. if v = Some x then 1 else 0 :: nat) = 0"
  by (induction xs) auto

lemma sum_list_indicator_distinct:
  "distinct xs \<Longrightarrow> (\<Sum>x\<leftarrow>xs. if v = Some x then 1 else 0 :: nat) \<le> 1"
  by (induction xs) (auto simp: sum_list_indicator_notin)

lemma sum_buckets_le:
  assumes "distinct ids"
  shows "(\<Sum>i\<leftarrow>ids. length (filter (\<lambda>ch. f ch = Some i) chs)) \<le> length chs"
proof (induction chs)
  case Nil
  show ?case by simp
next
  case (Cons ch chs)
  have "(\<Sum>i\<leftarrow>ids. length (filter (\<lambda>ch. f ch = Some i) (ch # chs))) =
        (\<Sum>i\<leftarrow>ids. (if f ch = Some i then 1 else 0) + length (filter (\<lambda>ch. f ch = Some i) chs))"
    by (intro arg_cong[where f = sum_list] map_cong) auto
  also have "\<dots> = (\<Sum>i\<leftarrow>ids. if f ch = Some i then 1 else 0) +
        (\<Sum>i\<leftarrow>ids. length (filter (\<lambda>ch. f ch = Some i) chs))"
    by (simp add: sum_list_addf)
  also have "\<dots> \<le> 1 + length chs"
    using sum_list_indicator_distinct[OF assms, of "f ch"] Cons by linarith
  finally show ?case by simp
qed

lemma sum_enrolled_le:
  assumes "distinct (map c_id cs)"
  shows "(\<Sum>c\<leftarrow>cs. enrolledCount (forecastStats F d cs chs) (c_id c)) \<le> length chs"
proof -
  have "(\<Sum>c\<leftarrow>cs. enrolledCount (forecastStats F d cs chs) (c_id c)) =
        (\<Sum>c\<leftarrow>cs. length (filter (\<lambda>ch. getClassroomForChild F ch d cs = Some (c_id c)) chs))"
    by (intro arg_cong[where f = sum_list] map_cong)
       (auto simp: enrolledCount_def forecastStats_eq length_sortBy)
  also have "\<dots> = (\<Sum>i\<leftarrow>map c_id cs.
       length (filter (\<lambda>ch. getClassroomForChild F ch d cs = Some i) chs))"
    by (simp add: o_def)
  also have "\<dots> \<le> length chs"
    by (rule sum_buckets_le[OF assms])
  finally show ?thesis .
qed

lemma trendEnrolled_distinct:
  assumes "distinct (map c_id cs)" and "c \<in> set cs" and "k < 25"
  shows "trendEnrolled (trendData F fd cs chs) (c_id c) k =
         enrolledCount (forecastStats F (addMonths F fd (int k - 12)) cs chs) (c_id c)"
proof -
  have len: "length [-12..12::int] = 25"
    by (simp only: length_upto)
  have nth: "[-12..12] ! k = int k - 12"
    using assms(3) by (subst nth_upto) simp_all
  show ?thesis
    unfolding trendEnrolled_def trendData_distinct[OF assms(1,2)]
    using assms(3) by (simp only: option.case length_map len if_True nth_map nth pointAt_def
        TrendPoint.simps)
qed

text \<open>
  Claim C10. Whatever the age bands (overlapping or not), a child is on the roster of at
  most one classroom id, so the enrolled counts of the classrooms sum to at most the
  number of children; the same holds for the enrolled counts of the points of every
  month of the trend series. (Classroom ids are the primary key of the table, hence
  distinct.)
\<close>
theorem each_child_counted_at_most_once:
  assumes "distinct (map c_id classrooms)"
  shows "(\<forall>child i j si sj.
            forecastStats F targetDate classrooms children i = Some si \<and>
            forecastStats F targetDate classrooms children j = Some sj \<and>
            child \<in> set (enrolled si) \<and> child \<in> set (enrolled sj) \<longrightarrow> i = j) \<and>
         (\<Sum>c\<leftarrow>classrooms. enrolledCount (forecastStats F targetDate classrooms children) (c_id c))
            \<le> length children \<and>
         (\<forall>k < 25. (\<Sum>c\<leftarrow>classrooms.
                        trendEnrolled (trendData F targetDate classrooms children) (c_id c) k)
            \<le> length children)"
proof (intro conjI allI impI)
  fix child i j si sj
  assume "forecastStats F targetDate classrooms children i = Some si \<and>
          forecastStats F targetDate classrooms children j = Some sj \<and>
          child \<in> set (enrolled si) \<and> child \<in> set (enrolled sj)"
  then have "getClassroomForChild F child targetDate classrooms = Some i"
    "getClassroomForChild F child targetDate classrooms = Some j"
    by (auto dest: roster_set)
  then show "i = j" by simp
next
  show "(\<Sum>c\<leftarrow>classrooms. enrolledCount (forecastStats F targetDate classrooms children) (c_id c))
            \<le> length children"
    by (rule sum_enrolled_le[OF assms])
next
  fix k :: nat assume k: "k < 25"
  have "(\<Sum>c\<leftarrow>classrooms. trendEnrolled (trendData F targetDate classrooms children) (c_id c) k) =
        (\<Sum>c\<leftarrow>classrooms. enrolledCount
            (forecastStats F (addMonths F targetDate (int k - 12)) classrooms children) (c_id c))"
    by (intro arg_cong[where f = sum_list] map_cong refl trendEnrolled_distinct[OF assms _ k])
  also have "\<dots> \<le> length children"
    by (rule sum_enrolled_le[OF assms])
  finally show "(\<Sum>c\<leftarrow>classrooms.
       trendEnrolled (trendData F targetDate classrooms children) (c_id c) k) \<le> length children" .
qed

theorem each_child_counted_at_most_once_witness:
  "distinct (map c_id [infants, wobblers\<lparr>minAgeMonths := 6\<rparr>]) \<and>
   (\<Sum>c\<leftarrow>[infants, wobblers\<lparr>minAgeMonths := 6\<rparr>].
       enrolledCount (forecastStats monthCalendar june2025 [infants, wobblers\<lparr>minAgeMonths := 6\<rparr>]
                        [ava, liam, emma, noah]) (c_id c)) = 3 \<and>
   (\<Sum>c\<leftarrow>[infants, wobblers\<lparr>minAgeMonths := 6\<rparr>].
       enrolledCount (forecastStats monthCalendar june2025 [infants, wobblers\<lparr>minAgeMonths := 6\<rparr>]
                        [ava, liam, emma, noah]) (c_id c)) \<le> length [ava, liam, emma, noah] \<and>
   (\<Sum>c\<leftarrow>[infants, wobblers\<lparr>minAgeMonths := 6\<rparr>].
       trendEnrolled (trendData monthCalendar june2025 [infants, wobblers\<lparr>minAgeMonths := 6\<rparr>]
                        [ava, liam, emma, noah]) (c_id c) 12) \<le> length [ava, liam, emma, noah]"
proof -
  have d: "distinct (map c_id [infants, wobblers\<lparr>minAgeMonths := 6\<rparr>])"
    by (simp add: infants_def wobblers_def)
  have cid: "c_id infants = 1" "c_id (wobblers\<lparr>minAgeMonths := 6\<rparr>) = 2"
    by (simp_all add: infants_def wobblers_def)
  have three: "(\<Sum>c\<leftarrow>[infants, wobblers\<lparr>minAgeMonths := 6\<rparr>].
       enrolledCount (forecastStats monthCalendar june2025 [infants, wobblers\<lparr>minAgeMonths := 6\<rparr>]
                        [ava, liam, emma, noah]) (c_id c)) = 3"
    by (simp add: enrolledCount_def forecastStats_eq cid length_sortBy example_simps)
  show ?thesis
    using each_child_counted_at_most_once[OF d, of monthCalendar june2025 "[ava, liam, emma, noah]"]
      d three by simp
qed

section \<open>Properties of the number model\<close>

lemma floorLog2_bounds:
  assumes "0 < x"
  shows "2 powi (floorLog2 x) \<le> x" and "x < 2 powi (floorLog2 x + 1)"
proof -
  obtain p q where pq: "quotient_of x = (p, q)" by fastforce
  have q: "0 < q" using pq by (rule quotient_of_denom_pos)
  have x: "x = of_int p / of_int q" using pq by (rule quotient_of_div)
  have p: "0 < p" using assms q by (simp add: x zero_less_divide_iff)
  define a b where "a = bitlen p" and "b = bitlen q"
  have a1: "1 \<le> a" and b1: "1 \<le> b"
    using p q bitlen_eq_zero_iff[of p] bitlen_eq_zero_iff[of q] bitlen_nonneg[of p] bitlen_nonneg[of q]
    by (auto simp: a_def b_def)
  have pow: "rat_of_int (2 ^ nat k) = 2 powi k" if "0 \<le> k" for k
    using that by (simp add: power_int_nonneg_exp)
  have pu: "rat_of_int p < 2 powi a"
    using bitlen_bounds[OF p] a1 pow[of a] by (metis a_def of_int_less_iff order_trans zero_le_one)
  have pl: "2 powi (a - 1) \<le> rat_of_int p"
    using bitlen_bounds[OF p] a1 pow[of "a - 1"] by (metis a_def diff_ge_0_iff_ge of_int_le_iff)
  have qu: "rat_of_int q < 2 powi b"
    using bitlen_bounds[OF q] b1 pow[of b] by (metis b_def of_int_less_iff order_trans zero_le_one)
  have ql: "2 powi (b - 1) \<le> rat_of_int q"
    using bitlen_bounds[OF q] b1 pow[of "b - 1"] by (metis b_def diff_ge_0_iff_ge of_int_le_iff)
  have pos: "0 < (2::rat) powi k" for k by simp
  have pr: "0 < rat_of_int p" and qr: "0 < rat_of_int q" using p q by simp_all
  have "x \<le> rat_of_int p / 2 powi (b - 1)"
    unfolding x by (rule divide_left_mono[OF ql]) (use pr qr in \<open>simp_all add: mult_pos_pos\<close>)
  also have "\<dots> < 2 powi a / 2 powi (b - 1)"
    using pu pos[of "b - 1"] by (simp add: divide_strict_right_mono)
  also have "\<dots> = 2 powi (a - b + 1)"
    by (simp add: power_int_diff[symmetric] algebra_simps)
  finally have up: "x < 2 powi (a - b + 1)" .
  have "2 powi (a - b - 1) = 2 powi (a - 1) / (2::rat) powi b"
    by (simp add: power_int_diff[symmetric] algebra_simps)
  also have "\<dots> \<le> rat_of_int p / 2 powi b"
    using pl pos[of b] by (simp add: divide_right_mono)
  also have "\<dots> < x"
    unfolding x by (rule divide_strict_left_mono[OF qu]) (use pr qr in \<open>simp_all add: mult_pos_pos\<close>)
  finally have lo: "2 powi (a - b - 1) < x" .
  have fl: "floorLog2 x = (if 2 powi (a - b) \<le> x then a - b else a - b - 1)"
    by (simp add: floorLog2_def pq a_def b_def Let_def)
  show "2 powi (floorLog2 x) \<le> x"
    using lo by (simp add: fl)
  show "x < 2 powi (floorLog2 x + 1)"
    using up by (auto simp: fl not_le)
qed

lemma roundHalfEven_of_int: "roundHalfEven (of_int n) = n"
  by (simp add: roundHalfEven_def)

lemma roundHalfEven_floor: "\<lfloor>y\<rfloor> \<le> roundHalfEven y" "roundHalfEven y \<le> \<lfloor>y\<rfloor> + 1"
  by (simp_all add: roundHalfEven_def Let_def)

lemma roundHalfEven_ge:
  assumes "of_int n \<le> y" shows "n \<le> roundHalfEven y"
proof -
  have "n \<le> \<lfloor>y\<rfloor>" using assms by (simp add: le_floor_iff)
  then show ?thesis using roundHalfEven_floor(1)[of y] by linarith
qed

lemma roundHalfEven_le:
  assumes "y \<le> of_int n" shows "roundHalfEven y \<le> n"
proof (cases "y = of_int n")
  case True
  then show ?thesis by (simp add: roundHalfEven_of_int)
next
  case False
  then have "y < of_int n" using assms by simp
  then have "\<lfloor>y\<rfloor> < n" by (simp add: floor_less_iff)
  then show ?thesis using roundHalfEven_floor(2)[of y] by linarith
qed

lemma roundHalfEven_error: "\<bar>of_int (roundHalfEven y) - y\<bar> \<le> 1 / 2"
proof -
  have "of_int \<lfloor>y\<rfloor> \<le> y" "y < of_int \<lfloor>y\<rfloor> + 1" by linarith+
  then show ?thesis
    by (auto simp: roundHalfEven_def Let_def abs_le_iff)
qed


lemma toDouble_pos:
  assumes "0 < x"
  shows "toDouble x =
     of_int (roundHalfEven (x / 2 powi (floorLog2 x - 52))) * 2 powi (floorLog2 x - 52)"
  using assms by (simp add: toDouble_def Let_def)

lemma pow2_split: "(2::rat) powi (k + e) = 2 ^ nat k * 2 powi e" if "0 \<le> k"
proof -
  have "(2::rat) powi (k + e) = 2 powi k * 2 powi e" by (subst power_int_add) simp_all
  then show ?thesis using that by (simp add: power_int_nonneg_exp)
qed

lemma toDouble_lower:
  assumes "0 < x" shows "2 powi (floorLog2 x) \<le> toDouble x"
proof -
  define e where "e = floorLog2 x"
  define ulp :: rat where "ulp = 2 powi (e - 52)"
  have ulp: "0 < ulp" by (simp add: ulp_def)
  have e: "(2::rat) powi e = 2 ^ 52 * ulp"
    using pow2_split[of 52 "e - 52"] by (simp add: ulp_def)
  have "rat_of_int (2 ^ 52) = 2 powi e / ulp"
    using ulp by (simp add: e)
  also have "\<dots> \<le> x / ulp"
    using floorLog2_bounds(1)[OF assms] ulp by (simp add: divide_right_mono e_def)
  finally have "2 ^ 52 \<le> roundHalfEven (x / ulp)"
    by (rule roundHalfEven_ge)
  then have "rat_of_int (2 ^ 52) \<le> of_int (roundHalfEven (x / ulp))"
    by (simp only: of_int_le_iff)
  then have "rat_of_int (2 ^ 52) * ulp \<le> of_int (roundHalfEven (x / ulp)) * ulp"
    using ulp by (simp only: mult_le_cancel_right_pos)
  also have "of_int (roundHalfEven (x / ulp)) * ulp = toDouble x"
    by (simp add: toDouble_pos[OF assms] e_def ulp_def)
  finally show ?thesis by (simp add: e e_def[symmetric])
qed

lemma toDouble_upper:
  assumes "0 < x" shows "toDouble x \<le> 2 powi (floorLog2 x + 1)"
proof -
  define e where "e = floorLog2 x"
  define ulp :: rat where "ulp = 2 powi (e - 52)"
  have ulp: "0 < ulp" by (simp add: ulp_def)
  have e: "(2::rat) powi (e + 1) = 2 ^ 53 * ulp"
    using pow2_split[of 53 "e - 52"] by (simp add: ulp_def add.commute)
  have "x / ulp \<le> 2 powi (e + 1) / ulp"
    using floorLog2_bounds(2)[OF assms] ulp by (simp add: divide_right_mono e_def)
  also have "\<dots> = rat_of_int (2 ^ 53)"
    using ulp by (simp add: e)
  finally have "roundHalfEven (x / ulp) \<le> 2 ^ 53"
    by (rule roundHalfEven_le)
  then have "rat_of_int (roundHalfEven (x / ulp)) \<le> of_int (2 ^ 53)"
    by (simp only: of_int_le_iff)
  then have "of_int (roundHalfEven (x / ulp)) * ulp \<le> rat_of_int (2 ^ 53) * ulp"
    using ulp by (simp only: mult_le_cancel_right_pos)
  moreover have "of_int (roundHalfEven (x / ulp)) * ulp = toDouble x"
    by (simp add: toDouble_pos[OF assms] e_def ulp_def)
  ultimately show ?thesis by (simp add: e e_def[symmetric])
qed

lemma toDouble_error:
  assumes "0 < x" shows "\<bar>toDouble x - x\<bar> \<le> x / 2 ^ 53"
proof -
  define e where "e = floorLog2 x"
  define ulp :: rat where "ulp = 2 powi (e - 52)"
  have ulp: "0 < ulp" by (simp add: ulp_def)
  have "toDouble x - x = (of_int (roundHalfEven (x / ulp)) - x / ulp) * ulp"
    using ulp by (simp add: toDouble_pos[OF assms] e_def ulp_def algebra_simps)
  then have "\<bar>toDouble x - x\<bar> = \<bar>of_int (roundHalfEven (x / ulp)) - x / ulp\<bar> * ulp"
    using ulp by (simp add: abs_mult)
  also have "\<dots> \<le> 1 / 2 * ulp"
    using roundHalfEven_error[of "x / ulp"] ulp by (simp only: mult_le_cancel_right_pos)
  also have "\<dots> = 2 powi e / 2 ^ 53"
    using pow2_split[of 52 "e - 52"] by (simp add: ulp_def)
  also have "\<dots> \<le> x / 2 ^ 53"
    using floorLog2_bounds(1)[OF assms] by (simp add: divide_right_mono e_def)
  finally show ?thesis .
qed

lemma toDouble_one: "toDouble 1 = 1"
  by code_simp

lemma toDouble_pos_gt: "0 < x \<Longrightarrow> 0 < toDouble x"
  using toDouble_lower[of x] zero_less_power_int[of "2::rat" "floorLog2 x"] by linarith

lemma toDouble_less:
  assumes "0 \<le> x" and "0 < y" and "x + (x + y) / 2 ^ 53 < y"
  shows "toDouble x < toDouble y"
proof (cases "x = 0")
  case True
  then show ?thesis using toDouble_pos_gt[OF assms(2)] by (simp add: toDouble_def)
next
  case False
  then have x: "0 < x" using assms(1) by simp
  have "toDouble x \<le> x + x / 2 ^ 53"
    using toDouble_error[OF x] unfolding abs_le_iff by linarith
  moreover have "y - y / 2 ^ 53 \<le> toDouble y"
    using toDouble_error[OF assms(2)] unfolding abs_le_iff by linarith
  moreover have "x + x / 2 ^ 53 < y - y / 2 ^ 53"
    using assms(3) unfolding add_divide_distrib by linarith
  ultimately show ?thesis by linarith
qed

text \<open>Two ratios of integers with a 32-bit denominator are either equal or far apart.\<close>

lemma ratio_gap:
  fixes n c a b :: int
  assumes "0 < c" "c \<le> 2147483647" "0 < b" "b \<le> 10" "a * c < b * n"
  shows "rat_of_int a / of_int b + 1 / 21474836470 \<le> of_int n / of_int c"
proof -
  have "1 \<le> b * n - a * c" using assms(5) by simp
  then have "rat_of_int 1 \<le> of_int (b * n - a * c)" by (simp only: of_int_le_iff)
  then have one: "1 \<le> rat_of_int b * of_int n - of_int a * of_int c" by simp
  have bc: "0 < rat_of_int b * of_int c" using assms(1,3) by simp
  have "rat_of_int b * of_int c \<le> 10 * 2147483647"
    using assms(1-4) by (intro mult_mono) simp_all
  then have "1 / 21474836470 \<le> 1 / (rat_of_int b * of_int c)"
    using bc by (simp add: field_simps)
  also have "\<dots> \<le> (rat_of_int b * of_int n - of_int a * of_int c) / (of_int b * of_int c)"
    using one bc by (simp add: divide_right_mono)
  also have "\<dots> = of_int n / of_int c - of_int a / of_int b"
    using assms(1,3) by (simp add: field_simps)
  finally show ?thesis by linarith
qed

lemma ratio_gap':
  fixes n c a b :: int
  assumes "0 < c" "c \<le> 2147483647" "0 < b" "b \<le> 10" "b * n < a * c"
  shows "rat_of_int n / of_int c + 1 / 21474836470 \<le> of_int a / of_int b"
proof -
  have "1 \<le> a * c - b * n" using assms(5) by simp
  then have "rat_of_int 1 \<le> of_int (a * c - b * n)" by (simp only: of_int_le_iff)
  then have one: "1 \<le> rat_of_int a * of_int c - of_int b * of_int n" by simp
  have bc: "0 < rat_of_int b * of_int c" using assms(1,3) by simp
  have "rat_of_int b * of_int c \<le> 10 * 2147483647"
    using assms(1-4) by (intro mult_mono) simp_all
  then have "1 / 21474836470 \<le> 1 / (rat_of_int b * of_int c)"
    using bc by (simp add: field_simps)
  also have "\<dots> \<le> (rat_of_int a * of_int c - of_int b * of_int n) / (of_int b * of_int c)"
    using one bc by (simp add: divide_right_mono)
  also have "\<dots> = of_int a / of_int b - of_int n / of_int c"
    using assms(1,3) by (simp add: field_simps)
  finally show ?thesis by linarith
qed

lemma toDouble_ratio_less:
  fixes n c a b :: int
  assumes "0 < c" "c \<le> 2147483647" "0 < b" "b \<le> 10" "0 \<le> a" "a \<le> 10" "0 \<le> n"
  shows "a * c < b * n \<Longrightarrow> toDouble (of_int a / of_int b) < toDouble (of_int n / of_int c)"
    and "b * n < a * c \<Longrightarrow> toDouble (of_int n / of_int c) < toDouble (of_int a / of_int b)"
proof -
  define x :: rat where "x = of_int a / of_int b"
  define y :: rat where "y = of_int n / of_int c"
  have x0: "0 \<le> x" and y0: "0 \<le> y" using assms by (simp_all add: x_def y_def)
  have p53: "(2::rat) ^ 53 = 9007199254740992" by simp
  have x10: "x \<le> 10"
  proof -
    have "a \<le> 10 * b" using assms(3,6) by linarith
    then have "rat_of_int a \<le> of_int (10 * b)" by (simp only: of_int_le_iff)
    then have "rat_of_int a \<le> 10 * of_int b" by simp
    then show ?thesis using assms(3) by (simp add: x_def pos_divide_le_eq)
  qed
  {
    assume "a * c < b * n"
    then have g: "x + 1 / 21474836470 \<le> y"
      unfolding x_def y_def by (rule ratio_gap[OF assms(1-4)])
    then have "0 < y" using x0 by linarith
    moreover have "x + (x + y) / 2 ^ 53 < y"
      using g x0 x10 unfolding add_divide_distrib p53 by linarith
    ultimately show "toDouble (of_int a / of_int b) < toDouble (of_int n / of_int c)"
      using toDouble_less[OF x0] by (simp add: x_def y_def)
  }
  {
    assume "b * n < a * c"
    then have g: "y + 1 / 21474836470 \<le> x"
      unfolding x_def y_def by (rule ratio_gap'[OF assms(1-4)])
    then have "0 < x" using y0 by linarith
    moreover have "y + (y + x) / 2 ^ 53 < x"
      using g y0 x10 unfolding add_divide_distrib p53 by linarith
    ultimately show "toDouble (of_int n / of_int c) < toDouble (of_int a / of_int b)"
      using toDouble_less[OF y0] by (simp add: x_def y_def)
  }
qed

lemma ratio_rules:
  fixes n c :: int
  assumes "0 < c" "c \<le> 2147483647" "0 \<le> n"
  shows "jsGreater (jsDivide n c) 1 \<longleftrightarrow> c < n"
    and "jsGreaterEq (jsDivide n c) (toDouble (9 / 10)) \<longleftrightarrow> 9 * c \<le> 10 * n"
    and "jsLessEq (jsDivide n c) (toDouble (6 / 10)) \<longleftrightarrow> 10 * n \<le> 6 * c"
proof -
  have d: "jsDivide n c = Finite (toDouble (of_int n / of_int c))"
    using assms(1) by (simp add: jsDivide_def)
  note less = toDouble_ratio_less[OF assms(1,2) _ _ _ _ assms(3)]
  show "jsGreater (jsDivide n c) 1 \<longleftrightarrow> c < n"
  proof (cases "c < n")
    case True
    then show ?thesis using less(1)[of 1 1] by (simp add: d toDouble_one)
  next
    case False
    then have "n = c \<or> n < c" by linarith
    then show ?thesis
    proof
      assume "n = c"
      then have q: "rat_of_int n / of_int c = 1" using assms(1) by simp
      show ?thesis unfolding d q using \<open>n = c\<close> by (simp add: toDouble_one)
    next
      assume "n < c"
      then show ?thesis using less(2)[of 1 1] by (simp add: d toDouble_one)
    qed
  qed
  show "jsGreaterEq (jsDivide n c) (toDouble (9 / 10)) \<longleftrightarrow> 9 * c \<le> 10 * n"
  proof (cases "9 * c < 10 * n")
    case True
    then show ?thesis using less(1)[of 10 9] by (simp add: d)
  next
    case False
    then have "10 * n = 9 * c \<or> 10 * n < 9 * c" by linarith
    then show ?thesis
    proof
      assume e: "10 * n = 9 * c"
      then have "rat_of_int (10 * n) = of_int (9 * c)" by (simp only:)
      then have q: "rat_of_int n / of_int c = 9 / 10"
        using assms(1) by (simp add: field_simps)
      show ?thesis unfolding d q using e by simp
    next
      assume "10 * n < 9 * c"
      then show ?thesis using less(2)[of 10 9] by (simp add: d)
    qed
  qed
  show "jsLessEq (jsDivide n c) (toDouble (6 / 10)) \<longleftrightarrow> 10 * n \<le> 6 * c"
  proof (cases "10 * n < 6 * c")
    case True
    then show ?thesis using less(2)[of 10 6] by (simp add: d)
  next
    case False
    then have "10 * n = 6 * c \<or> 6 * c < 10 * n" by linarith
    then show ?thesis
    proof
      assume e: "10 * n = 6 * c"
      then have "rat_of_int (10 * n) = of_int (6 * c)" by (simp only:)
      then have q: "rat_of_int n / of_int c = 6 / 10"
        using assms(1) by (simp add: field_simps)
      show ?thesis unfolding d q using e by simp
    next
      assume "6 * c < 10 * n"
      then show ?thesis using less(1)[of 10 6] by (simp add: d)
    qed
  qed
qed

lemma toDouble_zero: "toDouble 0 = 0"
  by (simp add: toDouble_def)

lemma toDouble_minus: "toDouble (- x) = - toDouble x"
  by (simp add: toDouble_def Let_def)

lemma toDouble_nonpos:
  assumes "x \<le> 0" shows "toDouble x \<le> 0"
proof (cases "x = 0")
  case True
  then show ?thesis by (simp add: toDouble_zero)
next
  case False
  then have "0 < toDouble (- x)" using assms by (intro toDouble_pos_gt) simp
  then show ?thesis using toDouble_minus[of x] by simp
qed

lemma percentage_nearest:
  fixes E C :: int
  assumes "0 < C" and "0 \<le> E" and "E \<le> 2 ^ 32"
  shows "\<exists>p. mathRound (jsTimes (jsDivide E C) 100) = Finite (of_int p) \<and>
             \<bar>rat_of_int p - 100 * of_int E / of_int C\<bar> \<le> 1 / 2"
proof (cases "E = 0")
  case True
  have "\<lfloor>(1::rat) / 2\<rfloor> = 0" by (rule floor_unique) simp_all
  then have "mathRound (jsTimes (jsDivide E C) 100) = Finite (of_int 0)"
    using assms(1) by (simp add: True jsDivide_def toDouble_zero)
  then show ?thesis using True by (intro exI[of _ 0]) simp
next
  case False
  then have E: "0 < E" using assms(2) by simp
  define cr where "cr = rat_of_int C"
  define T where "T = rat_of_int (100 * E)"
  define x where "x = rat_of_int E / cr"
  define x1 where "x1 = toDouble x"
  define y where "y = x1 * 100"
  define x2 where "x2 = toDouble y"
  define p where "p = \<lfloor>x2 + 1 / 2\<rfloor>"
  have cr: "0 < cr" using assms(1) by (simp add: cr_def)
  have x: "0 < x" using E cr by (simp add: x_def)
  have x1: "0 < x1" unfolding x1_def using x by (rule toDouble_pos_gt)
  have y: "0 < y" using x1 by (simp add: y_def)
  have p53: "(2::rat) ^ 53 = 9007199254740992" by simp
  have e1: "\<bar>x1 - x\<bar> \<le> x / 9007199254740992"
    using toDouble_error[OF x] by (simp only: x1_def p53)
  have e2: "\<bar>x2 - y\<bar> \<le> y / 9007199254740992"
    using toDouble_error[OF y] by (simp only: x2_def p53)
  have "\<bar>x2 - 100 * x\<bar> \<le> 3 * (100 * x) / 9007199254740992"
    using e1 e2 x unfolding y_def by linarith
  then have a: "\<bar>x2 - 100 * x\<bar> * cr \<le> 3 * (100 * x) / 9007199254740992 * cr"
    using cr by (simp only: mult_le_cancel_right_pos)
  have b: "\<bar>x2 - 100 * x\<bar> * cr = \<bar>x2 * cr - T\<bar>"
  proof -
    have "\<bar>x2 - 100 * x\<bar> * cr = \<bar>(x2 - 100 * x) * cr\<bar>"
      using cr by (simp add: abs_mult)
    also have "(x2 - 100 * x) * cr = x2 * cr - T"
      using cr by (simp add: x_def T_def algebra_simps)
    finally show ?thesis .
  qed
  have c: "3 * (100 * x) / 9007199254740992 * cr = 3 * T / 9007199254740992"
    using cr by (simp add: x_def T_def)
  have close: "\<bar>x2 * cr - T\<bar> \<le> 3 * T / 9007199254740992"
    using a unfolding b c .
  define A where "A = x2 * cr"
  define B where "B = rat_of_int p * cr"
  have fl: "rat_of_int p \<le> x2 + 1 / 2" "x2 + 1 / 2 < rat_of_int p + 1"
    unfolding p_def by linarith+
  have "rat_of_int p * cr \<le> (x2 + 1 / 2) * cr"
    using fl(1) cr by (simp only: mult_le_cancel_right_pos)
  then have lo: "B \<le> A + cr / 2" by (simp add: A_def B_def algebra_simps)
  have "(x2 + 1 / 2) * cr < (rat_of_int p + 1) * cr"
    using fl(2) cr by (simp only: mult_less_cancel_right_pos)
  then have hi: "A + cr / 2 < B + cr" by (simp add: A_def B_def algebra_simps)
  have T: "0 < T" "T \<le> 429496729600"
    using E assms(3) by (simp_all add: T_def)
  have close': "\<bar>A - T\<bar> \<le> 3 * T / 9007199254740992"
    using close by (simp add: A_def)
  have int1: "2 * B - 2 * T - cr = rat_of_int (2 * p * C - 2 * (100 * E) - C)"
    by (simp add: B_def T_def cr_def)
  have up: "B - T \<le> cr / 2"
  proof (rule ccontr)
    assume "\<not> B - T \<le> cr / 2"
    then have "0 < 2 * B - 2 * T - cr" by linarith
    then have "0 < 2 * p * C - 2 * (100 * E) - C" unfolding int1 by (simp only: of_int_0_less_iff)
    then have "1 \<le> 2 * p * C - 2 * (100 * E) - C" by linarith
    then have "rat_of_int 1 \<le> rat_of_int (2 * p * C - 2 * (100 * E) - C)" by (simp only: of_int_le_iff)
    then have "1 \<le> 2 * B - 2 * T - cr" unfolding int1 by simp
    then show False using lo close' T by linarith
  qed
  have dn: "T - B \<le> cr / 2"
  proof (rule ccontr)
    assume "\<not> T - B \<le> cr / 2"
    then have "0 < - (2 * B - 2 * T - cr) - 2 * cr" by linarith
    then have "0 < rat_of_int (- (2 * p * C - 2 * (100 * E) - C) - 2 * C)"
      unfolding int1 by (simp add: cr_def)
    then have "0 < - (2 * p * C - 2 * (100 * E) - C) - 2 * C" by (simp only: of_int_0_less_iff)
    then have "1 \<le> - (2 * p * C - 2 * (100 * E) - C) - 2 * C" by linarith
    then have "rat_of_int 1 \<le> rat_of_int (- (2 * p * C - 2 * (100 * E) - C) - 2 * C)"
      by (simp only: of_int_le_iff)
    then have "1 \<le> - (2 * B - 2 * T - cr) - 2 * cr" unfolding int1 by (simp add: cr_def)
    then show False using hi close' T by linarith
  qed
  have "\<bar>B - T\<bar> \<le> cr / 2" using up dn by linarith
  then have "\<bar>B - T\<bar> / cr \<le> cr / 2 / cr" using cr by (simp only: divide_le_cancel) simp
  moreover have "\<bar>B - T\<bar> / cr = \<bar>rat_of_int p - 100 * of_int E / of_int C\<bar>"
  proof -
    have "\<bar>B - T\<bar> / cr = \<bar>(B - T) / cr\<bar>" using cr by simp
    also have "(B - T) / cr = rat_of_int p - 100 * of_int E / of_int C"
      using cr by (simp add: B_def T_def cr_def field_simps)
    finally show ?thesis .
  qed
  ultimately have "\<bar>rat_of_int p - 100 * of_int E / of_int C\<bar> \<le> 1 / 2"
    using cr by simp
  moreover have "mathRound (jsTimes (jsDivide E C) 100) = Finite (of_int p)"
    using assms(1) by (simp add: jsDivide_def p_def x2_def y_def x1_def x_def cr_def)
  ultimately show ?thesis by blast
qed

section \<open>Capacity alerts\<close>

lemma insightFor_append: "insightFor stats c insights = insights @ insightFor stats c []"
  by (simp add: insightFor_def Let_def split: option.splits)

lemma fold_insightFor:
  "fold (insightFor stats) cs insights = insights @ concat (map (\<lambda>c. insightFor stats c []) cs)"
proof (induction cs arbitrary: insights)
  case Nil
  show ?case by simp
next
  case (Cons c cs)
  have "fold (insightFor stats) (c # cs) insights =
        fold (insightFor stats) cs (insightFor stats c insights)" by simp
  also have "\<dots> = insightFor stats c insights @ concat (map (\<lambda>c. insightFor stats c []) cs)"
    by (rule Cons)
  also have "\<dots> = insights @ concat (map (\<lambda>c. insightFor stats c []) (c # cs))"
    by (subst insightFor_append) simp
  finally show ?case .
qed

lemma filter_insightFor:
  "filter (\<lambda>a. classroomId a = i) (insightFor stats c []) =
     (if c_id c = i then insightFor stats c [] else [])"
  by (simp add: insightFor_def Let_def split: option.splits)

lemma alerts_of_classroom:
  assumes "distinct (map c_id cs)" and "c \<in> set cs"
  shows "filter (\<lambda>a. classroomId a = c_id c) (capacityInsights stats cs) = insightFor stats c []"
proof -
  have "filter (\<lambda>a. classroomId a = c_id c) (concat (map (\<lambda>c. insightFor stats c []) cs)) =
        concat (map (\<lambda>c'. insightFor stats c' []) (filter (\<lambda>c'. c_id c' = c_id c) cs))"
    by (induction cs) (simp_all add: filter_insightFor)
  then show ?thesis
    by (simp add: capacityInsights_def fold_insightFor filter_distinct_id[OF assms])
qed


lemma insightFor_types:
  "map i_type (insightFor stats c []) =
     (case stats (c_id c) of
        None \<Rightarrow> []
      | Some s \<Rightarrow>
          if jsGreater (jsDivide (int (length (enrolled s))) (capacity c)) 1 then [Critical]
          else if jsGreaterEq (jsDivide (int (length (enrolled s))) (capacity c)) (toDouble (9 / 10))
          then [Warning]
          else if jsLessEq (jsDivide (int (length (enrolled s))) (capacity c)) (toDouble (6 / 10))
          then [Opportunity]
          else [])"
  by (simp add: insightFor_def Let_def split: option.splits)

lemma stats_of_listed:
  assumes "c \<in> set cs"
  shows "\<exists>s. forecastStats F d cs chs (c_id c) = Some s \<and>
             length (enrolled s) = enrolledCount (forecastStats F d cs chs) (c_id c)"
  using assms by (simp add: forecastStats_eq enrolledCount_def)

text \<open>
  The alerts of one classroom of the list: at most one, and its kind follows the first
  matching rule on the ratio enrolled / capacity, which is a double, as are the two
  thresholds. For a capacity that is positive and fits the 32-bit integer column the
  rules are the same in exact arithmetic, and "ratio above 1" is "enrolled above
  capacity". (Classroom ids are the primary key of the table, hence distinct.)
\<close>

lemma capacity_alert_rules:
  assumes "distinct (map c_id classrooms)" and "c \<in> set classrooms"
  shows "let stats = forecastStats F targetDate classrooms children;
             n = int (enrolledCount stats (c_id c));
             r = jsDivide n (capacity c);
             alerts = filter (\<lambda>a. classroomId a = c_id c) (capacityInsights stats classrooms)
         in length alerts \<le> 1 \<and>
            map i_type alerts =
              (if jsGreater r 1 then [Critical]
               else if jsGreaterEq r (toDouble (9 / 10)) then [Warning]
               else if jsLessEq r (toDouble (6 / 10)) then [Opportunity]
               else []) \<and>
            (0 < capacity c \<and> capacity c \<le> 2147483647 \<longrightarrow>
               map i_type alerts =
                 (if capacity c < n then [Critical]
                  else if 9 * capacity c \<le> 10 * n then [Warning]
                  else if 10 * n \<le> 6 * capacity c then [Opportunity]
                  else []))"
proof -
  define stats where "stats = forecastStats F targetDate classrooms children"
  define n where "n = int (enrolledCount stats (c_id c))"
  define alerts where
    "alerts = filter (\<lambda>a. classroomId a = c_id c) (capacityInsights stats classrooms)"
  obtain s where s: "stats (c_id c) = Some s" and ls: "int (length (enrolled s)) = n"
    using stats_of_listed[OF assms(2), of F targetDate children] by (auto simp: stats_def n_def)
  have al: "alerts = insightFor stats c []"
    unfolding alerts_def by (rule alerts_of_classroom[OF assms])
  have types: "map i_type alerts =
              (if jsGreater (jsDivide n (capacity c)) 1 then [Critical]
               else if jsGreaterEq (jsDivide n (capacity c)) (toDouble (9 / 10)) then [Warning]
               else if jsLessEq (jsDivide n (capacity c)) (toDouble (6 / 10)) then [Opportunity]
               else [])"
    unfolding al insightFor_types s by (simp only: option.case ls)
  have "length (map i_type alerts) \<le> 1"
    unfolding types by simp
  then have len: "length alerts \<le> 1" by simp
  have exact: "map i_type alerts =
                 (if capacity c < n then [Critical]
                  else if 9 * capacity c \<le> 10 * n then [Warning]
                  else if 10 * n \<le> 6 * capacity c then [Opportunity]
                  else [])" if "0 < capacity c" "capacity c \<le> 2147483647"
  proof -
    have "0 \<le> n" by (simp add: n_def)
    from ratio_rules[OF that this] show ?thesis
      unfolding types by (simp only:)
  qed
  show ?thesis
    using len types exact
    unfolding Let_def stats_def[symmetric] n_def[symmetric] alerts_def[symmetric]
    by blast
qed

lemma example_counts:
  "enrolledCount (forecastStats monthCalendar june2025 [infants\<lparr>capacity := k\<rparr>, wobblers] [ava, emma, mia, liam])
     (c_id (infants\<lparr>capacity := k\<rparr>)) = 3"
  "enrolledCount (forecastStats monthCalendar june2025 [infants\<lparr>capacity := k\<rparr>, wobblers] [ava, emma, mia, liam])
     (c_id wobblers) = 1"
  by (simp_all add: enrolledCount_def forecastStats_eq length_sortBy example_simps)

text \<open>
  A classroom of the list whose capacity is negative has more children enrolled than
  seats, whatever its roster; its card says so (\<open>isOverCapacity\<close>). Its ratio is then
  zero or negative, so the alert is the one for high availability.
\<close>

lemma negative_capacity_alert:
  assumes "distinct (map c_id classrooms)" and "c \<in> set classrooms" and "capacity c < 0"
  shows "let stats = forecastStats F targetDate classrooms children;
             n = int (enrolledCount stats (c_id c));
             alerts = filter (\<lambda>a. classroomId a = c_id c) (capacityInsights stats classrooms)
         in isOverCapacity stats c \<and>
            alerts = [\<lparr>i_type = Opportunity,
                       message = c_name c @ '' has high availability ('' @ showInt (capacity c - n)
                                 @ '' vacancies). Consider marketing.'',
                       classroomId = c_id c\<rparr>]"
proof -
  define stats where "stats = forecastStats F targetDate classrooms children"
  define n where "n = int (enrolledCount stats (c_id c))"
  define alerts where
    "alerts = filter (\<lambda>a. classroomId a = c_id c) (capacityInsights stats classrooms)"
  obtain s where s: "stats (c_id c) = Some s" and ls: "int (length (enrolled s)) = n"
    using stats_of_listed[OF assms(2), of F targetDate children] by (auto simp: stats_def n_def)
  have n0: "0 \<le> n" by (simp add: n_def)
  have al: "alerts = insightFor stats c []"
    unfolding alerts_def by (rule alerts_of_classroom[OF assms(1,2)])
  define t where "t = toDouble (rat_of_int n / rat_of_int (capacity c))"
  have "rat_of_int n / rat_of_int (capacity c) \<le> 0"
    using n0 assms(3) by (intro divide_nonneg_neg) simp_all
  then have t0: "t \<le> 0" unfolding t_def by (rule toDouble_nonpos)
  have r: "jsDivide n (capacity c) = Finite t"
    using assms(3) by (simp add: jsDivide_def t_def)
  have lit: "0 < toDouble (9 / 10)" "0 < toDouble (6 / 10)"
    by (rule toDouble_pos_gt, simp)+
  have c1: "\<not> jsGreater (Finite t) 1" using t0 by simp
  have c2: "\<not> jsGreaterEq (Finite t) (toDouble (9 / 10))" using t0 lit(1) by simp
  have c3: "jsLessEq (Finite t) (toDouble (6 / 10))" using t0 lit(2) by simp
  have over: "isOverCapacity stats c"
    using assms(3) n0 by (simp add: isOverCapacity_def s ls)
  have "alerts = [\<lparr>i_type = Opportunity,
                       message = c_name c @ '' has high availability ('' @ showInt (capacity c - n)
                                 @ '' vacancies). Consider marketing.'',
                       classroomId = c_id c\<rparr>]"
    unfolding al insightFor_def
    by (simp only: s option.case Let_def ls r c1 c2 c3 if_True if_False append_Nil)
  with over show ?thesis
    unfolding Let_def stats_def[symmetric] n_def[symmetric] alerts_def[symmetric]
    by blast
qed

text \<open>
  Claim C6 fails on the code for a classroom of negative capacity, which the insert
  schema lets through. With capacity -5 and three children enrolled the classroom is
  over capacity, and its card says so; the alert produced for it is not the critical
  one but the one for high availability.
\<close>
theorem negative_capacity_alert_is_opportunity:
  "isOverCapacity (forecastStats monthCalendar june2025 [infants\<lparr>capacity := - 5\<rparr>, wobblers]
                     [ava, emma, mia, liam]) (infants\<lparr>capacity := - 5\<rparr>) \<and>
   enrolledCount (forecastStats monthCalendar june2025 [infants\<lparr>capacity := - 5\<rparr>, wobblers]
                    [ava, emma, mia, liam]) 1 = 3 \<and>
   filter (\<lambda>a. classroomId a = 1)
     (capacityInsights (forecastStats monthCalendar june2025 [infants\<lparr>capacity := - 5\<rparr>, wobblers]
                          [ava, emma, mia, liam]) [infants\<lparr>capacity := - 5\<rparr>, wobblers]) =
     [\<lparr>i_type = Opportunity,
       message = ''Infants has high availability (-8 vacancies). Consider marketing.'',
       classroomId = 1\<rparr>]"
proof -
  have d: "distinct (map c_id [infants\<lparr>capacity := - 5\<rparr>, wobblers])"
    and i: "infants\<lparr>capacity := - 5\<rparr> \<in> set [infants\<lparr>capacity := - 5\<rparr>, wobblers]"
    and neg: "capacity (infants\<lparr>capacity := - 5\<rparr>) < 0"
    by (simp_all add: infants_def wobblers_def)
  have ids: "c_id (infants\<lparr>capacity := - 5\<rparr>) = 1" "c_name (infants\<lparr>capacity := - 5\<rparr>) = ''Infants''"
    and caps: "capacity (infants\<lparr>capacity := - 5\<rparr>) = - 5"
    by (simp_all add: infants_def)
  have eight: "showInt (- 8) = ''-8''"
    by (simp add: showInt_def showNat.simps)
  note t = negative_capacity_alert[OF d i neg, of monthCalendar june2025 "[ava, emma, mia, liam]",
      unfolded Let_def example_counts]
  have n: "enrolledCount (forecastStats monthCalendar june2025 [infants\<lparr>capacity := - 5\<rparr>, wobblers]
                    [ava, emma, mia, liam]) 1 = 3"
    using example_counts(1)[of "- 5"] by (simp only: ids)
  show ?thesis
    using t n by (simp add: ids caps eight)
qed

text \<open>
  Claim C2. For a classroom whose capacity is positive (and fits the 32-bit integer
  column), a critical alert is produced exactly when the enrolled count is strictly
  above the capacity; its message then names the amount enrolled minus capacity; and
  when the enrolled count equals the capacity the classroom gets a warning, not a
  critical alert. (Classroom ids are the primary key of the table, hence distinct.)
\<close>
theorem critical_alert_iff_over_capacity:
  assumes "distinct (map c_id classrooms)" and "c \<in> set classrooms"
    and "0 < capacity c" and "capacity c \<le> 2147483647"
  shows "let stats = forecastStats F targetDate classrooms children;
             n = int (enrolledCount stats (c_id c));
             alerts = filter (\<lambda>a. classroomId a = c_id c) (capacityInsights stats classrooms)
         in ((\<exists>a \<in> set alerts. i_type a = Critical) \<longleftrightarrow> capacity c < n) \<and>
            (capacity c < n \<longrightarrow>
               alerts = [\<lparr>i_type = Critical,
                          message = c_name c @ '' is over capacity by '' @ showInt (n - capacity c)
                                    @ '' spot'' @ (if n - capacity c \<noteq> 1 then ''s'' else '''') @ ''.'',
                          classroomId = c_id c\<rparr>]) \<and>
            (n = capacity c \<longrightarrow> map i_type alerts = [Warning])"
proof -
  define stats where "stats = forecastStats F targetDate classrooms children"
  define n where "n = int (enrolledCount stats (c_id c))"
  define alerts where
    "alerts = filter (\<lambda>a. classroomId a = c_id c) (capacityInsights stats classrooms)"
  obtain s where s: "stats (c_id c) = Some s" and ls: "int (length (enrolled s)) = n"
    using stats_of_listed[OF assms(2), of F targetDate children] by (auto simp: stats_def n_def)
  have n0: "0 \<le> n" by (simp add: n_def)
  note rules = ratio_rules[OF assms(3,4) n0]
  have al: "alerts = insightFor stats c []"
    unfolding alerts_def by (rule alerts_of_classroom[OF assms(1,2)])
  have types: "map i_type alerts =
                 (if capacity c < n then [Critical]
                  else if 9 * capacity c \<le> 10 * n then [Warning]
                  else if 10 * n \<le> 6 * capacity c then [Opportunity]
                  else [])"
    unfolding al insightFor_types s by (simp only: option.case ls rules)
  have "(\<exists>a \<in> set alerts. i_type a = Critical) \<longleftrightarrow> Critical \<in> set (map i_type alerts)"
    unfolding set_map image_iff by (rule iffI; erule bexE; rule bexI; simp)
  also have "\<dots> \<longleftrightarrow> capacity c < n"
    unfolding types by simp
  finally have a: "(\<exists>a \<in> set alerts. i_type a = Critical) \<longleftrightarrow> capacity c < n" .
  have b: "alerts = [\<lparr>i_type = Critical,
                          message = c_name c @ '' is over capacity by '' @ showInt (n - capacity c)
                                    @ '' spot'' @ (if n - capacity c \<noteq> 1 then ''s'' else '''') @ ''.'',
                          classroomId = c_id c\<rparr>]" if "capacity c < n"
  proof -
    have "jsGreater (jsDivide (int (length (enrolled s))) (capacity c)) 1"
      using that by (simp only: ls rules)
    moreover have "\<bar>capacity c - n\<bar> = n - capacity c" using that by simp
    ultimately show ?thesis
      unfolding al by (simp add: insightFor_def s Let_def ls)
  qed
  have c: "map i_type alerts = [Warning]" if "n = capacity c"
    unfolding types using that assms(3) by simp
  show ?thesis
    using a b c
    unfolding Let_def stats_def[symmetric] n_def[symmetric] alerts_def[symmetric]
    by blast
qed

theorem critical_alert_iff_over_capacity_witness:
  "distinct (map c_id [infants\<lparr>capacity := 2\<rparr>, wobblers]) \<and>
   infants\<lparr>capacity := 2\<rparr> \<in> set [infants\<lparr>capacity := 2\<rparr>, wobblers] \<and>
   0 < capacity (infants\<lparr>capacity := 2\<rparr>) \<and> capacity (infants\<lparr>capacity := 2\<rparr>) \<le> 2147483647 \<and>
   filter (\<lambda>a. classroomId a = 1)
     (capacityInsights (forecastStats monthCalendar june2025 [infants\<lparr>capacity := 2\<rparr>, wobblers]
                          [ava, emma, mia, liam]) [infants\<lparr>capacity := 2\<rparr>, wobblers]) =
     [\<lparr>i_type = Critical, message = ''Infants is over capacity by 1 spot.'', classroomId = 1\<rparr>] \<and>
   map i_type (filter (\<lambda>a. classroomId a = 1)
     (capacityInsights (forecastStats monthCalendar june2025 [infants\<lparr>capacity := 3\<rparr>, wobblers]
                          [ava, emma, mia, liam]) [infants\<lparr>capacity := 3\<rparr>, wobblers])) = [Warning]"
proof -
  have d: "distinct (map c_id [infants\<lparr>capacity := k\<rparr>, wobblers])"
    and i: "infants\<lparr>capacity := k\<rparr> \<in> set [infants\<lparr>capacity := k\<rparr>, wobblers]" for k
    by (simp_all add: infants_def wobblers_def)
  have ids: "c_id (infants\<lparr>capacity := k\<rparr>) = 1" "c_name (infants\<lparr>capacity := k\<rparr>) = ''Infants''"
    and caps: "capacity (infants\<lparr>capacity := k\<rparr>) = k" for k
    by (simp_all add: infants_def)
  have one: "showInt 1 = ''1''"
    by (simp add: showInt_def showNat.simps)
  note t1 = critical_alert_iff_over_capacity[OF d i, of 2 monthCalendar june2025 "[ava, emma, mia, liam]",
      unfolded Let_def example_counts, THEN conjunct2, THEN conjunct1, rule_format]
  note t2 = critical_alert_iff_over_capacity[OF d i, of 3 monthCalendar june2025 "[ava, emma, mia, liam]",
      unfolded Let_def example_counts, THEN conjunct2, THEN conjunct2, rule_format]
  have "filter (\<lambda>a. classroomId a = 1)
     (capacityInsights (forecastStats monthCalendar june2025 [infants\<lparr>capacity := 2\<rparr>, wobblers]
                          [ava, emma, mia, liam]) [infants\<lparr>capacity := 2\<rparr>, wobblers]) =
     [\<lparr>i_type = Critical, message = ''Infants is over capacity by 1 spot.'', classroomId = 1\<rparr>]"
    using t1 by (simp add: ids caps one)
  moreover have "map i_type (filter (\<lambda>a. classroomId a = 1)
     (capacityInsights (forecastStats monthCalendar june2025 [infants\<lparr>capacity := 3\<rparr>, wobblers]
                          [ava, emma, mia, liam]) [infants\<lparr>capacity := 3\<rparr>, wobblers])) = [Warning]"
    using t2 by (simp add: ids caps)
  ultimately show ?thesis using d[of 2] i[of 2] by (simp add: caps)
qed

section \<open>Overall totals\<close>

lemma fold_plus:
  "fold (\<lambda>c sum. sum + f c) cs (a::int) = a + sum_list (map f cs)"
  by (induction cs arbitrary: a) simp_all

lemma totalCapacity_sum: "totalCapacity cs = sum_list (map capacity cs)"
  by (simp add: totalCapacity_def fold_plus)

lemma totalEnrolled_sum:
  assumes "distinct (map c_id cs)"
  shows "totalEnrolled cs stats = (\<Sum>c\<leftarrow>cs. int (enrolledCount stats (c_id c)))"
proof -
  have "(\<lambda>k. case stats k of None \<Rightarrow> 0 | Some s \<Rightarrow> int (length (enrolled s))) =
        (\<lambda>k. int (enrolledCount stats k))"
    by (rule ext) (simp add: enrolledCount_def split: option.splits)
  moreover have "statsKeys cs = map c_id cs"
    using assms by (simp add: statsKeys_def distinct_remdups_id)
  ultimately have "totalEnrolled cs stats = 0 + sum_list (map (\<lambda>k. int (enrolledCount stats k)) (map c_id cs))"
    unfolding totalEnrolled_def fold_plus by (simp only:)
  then show ?thesis by (simp add: o_def)
qed

lemma sum_list_int: "(\<Sum>x\<leftarrow>xs. int (f x)) = int (\<Sum>x\<leftarrow>xs. f x)"
  by (induction xs) simp_all

lemma totalEnrolled_bounds:
  assumes "distinct (map c_id cs)"
  shows "0 \<le> totalEnrolled cs (forecastStats F d cs chs)"
    and "totalEnrolled cs (forecastStats F d cs chs) \<le> int (length chs)"
proof -
  show "0 \<le> totalEnrolled cs (forecastStats F d cs chs)"
    unfolding totalEnrolled_sum[OF assms] by (rule sum_list_nonneg) auto
  have "totalEnrolled cs (forecastStats F d cs chs) =
        int (\<Sum>c\<leftarrow>cs. enrolledCount (forecastStats F d cs chs) (c_id c))"
    unfolding totalEnrolled_sum[OF assms] by (rule sum_list_int)
  then show "totalEnrolled cs (forecastStats F d cs chs) \<le> int (length chs)"
    using sum_enrolled_le[OF assms, of F d chs] by linarith
qed

text \<open>
  Claim C8, as amended. Total capacity is the sum of the classroom capacities, total
  enrolled is the sum of the roster sizes of the classrooms, and total vacancies is
  their difference (negative when over-enrolled). The occupancy percentage is
  \<open>Math.round((totalEnrolled / totalCapacity) * 100)\<close> in double arithmetic: for a
  positive total capacity it is an integer within 1/2 of \<open>100 * totalEnrolled /
  totalCapacity\<close>. On an exact half it need not be the rounded-up value: the quotient is
  rounded before it is multiplied, and 23 enrolled of 40 seats give 57, where
  \<open>round(100 * 23 / 40)\<close> is 58. (Classroom ids are the primary key of the table, hence
  distinct; a list has at most \<open>2 ^ 32\<close> elements.)
\<close>
theorem totals_and_percentage:
  assumes "distinct (map c_id classrooms)"
  shows "let stats = forecastStats F targetDate classrooms children
         in totalCapacity classrooms = sum_list (map capacity classrooms) \<and>
            totalEnrolled classrooms stats =
              (\<Sum>c\<leftarrow>classrooms. int (enrolledCount stats (c_id c))) \<and>
            totalVacancies classrooms stats =
              totalCapacity classrooms - totalEnrolled classrooms stats \<and>
            (0 < totalCapacity classrooms \<and> length children \<le> 2 ^ 32 \<longrightarrow>
               (\<exists>p. totalCapacityPercentage classrooms stats = Finite (of_int p) \<and>
                    \<bar>rat_of_int p - 100 * of_int (totalEnrolled classrooms stats)
                                       / of_int (totalCapacity classrooms)\<bar> \<le> 1 / 2))"
proof -
  define stats where "stats = forecastStats F targetDate classrooms children"
  have pct: "\<exists>p. totalCapacityPercentage classrooms stats = Finite (of_int p) \<and>
                    \<bar>rat_of_int p - 100 * of_int (totalEnrolled classrooms stats)
                                       / of_int (totalCapacity classrooms)\<bar> \<le> 1 / 2"
    if "0 < totalCapacity classrooms" "length children \<le> 2 ^ 32"
  proof -
    have "totalEnrolled classrooms stats \<le> int (length children)"
      unfolding stats_def by (rule totalEnrolled_bounds(2)[OF assms])
    also have "\<dots> \<le> int (2 ^ 32)" using that(2) by (simp only: of_nat_le_iff)
    finally have "totalEnrolled classrooms stats \<le> 2 ^ 32" by simp
    moreover have "0 \<le> totalEnrolled classrooms stats"
      unfolding stats_def by (rule totalEnrolled_bounds(1)[OF assms])
    ultimately show ?thesis
      unfolding totalCapacityPercentage_def using percentage_nearest[OF that(1)] by blast
  qed
  show ?thesis
    unfolding Let_def stats_def[symmetric]
    using totalCapacity_sum[of classrooms] totalEnrolled_sum[OF assms, of stats] pct
    by (simp add: totalVacancies_def)
qed

lemma cohort_assigned:
  "filter (\<lambda>ch. getClassroomForChild monthCalendar ch june2025 [infants\<lparr>capacity := 40\<rparr>] = Some 1) cohort
     = cohort"
  unfolding cohort_def filter_map o_def
  by (simp add: getClassroomForChild_def inBand_def monthCalendar_def june2025_def firstOfMonth_def
      digitValue_def infants_def)

lemma cohort_totals:
  "totalCapacity [infants\<lparr>capacity := 40\<rparr>] = 40"
  "totalEnrolled [infants\<lparr>capacity := 40\<rparr>]
     (forecastStats monthCalendar june2025 [infants\<lparr>capacity := 40\<rparr>] cohort) = 23"
proof -
  show "totalCapacity [infants\<lparr>capacity := 40\<rparr>] = 40"
    by (simp add: totalCapacity_def infants_def)
  have "length cohort = 23" by (simp add: cohort_def)
  moreover have "c_id (infants\<lparr>capacity := 40\<rparr>) = 1" by (simp add: infants_def)
  ultimately show "totalEnrolled [infants\<lparr>capacity := 40\<rparr>]
     (forecastStats monthCalendar june2025 [infants\<lparr>capacity := 40\<rparr>] cohort) = 23"
    by (simp add: totalEnrolled_def statsKeys_def forecastStats_eq length_sortBy cohort_assigned)
qed

theorem percentage_is_not_round_counterexample:
  "totalCapacityPercentage [infants\<lparr>capacity := 40\<rparr>]
     (forecastStats monthCalendar june2025 [infants\<lparr>capacity := 40\<rparr>] cohort) = Finite 57 \<and>
   round (100 * rat_of_int (totalEnrolled [infants\<lparr>capacity := 40\<rparr>]
            (forecastStats monthCalendar june2025 [infants\<lparr>capacity := 40\<rparr>] cohort))
          / rat_of_int (totalCapacity [infants\<lparr>capacity := 40\<rparr>])) = 58 \<and>
   totalCapacityPercentage [infants\<lparr>capacity := 40\<rparr>]
     (forecastStats monthCalendar june2025 [infants\<lparr>capacity := 40\<rparr>] cohort) \<noteq>
   Finite (of_int (round (100 * rat_of_int (totalEnrolled [infants\<lparr>capacity := 40\<rparr>]
            (forecastStats monthCalendar june2025 [infants\<lparr>capacity := 40\<rparr>] cohort))
          / rat_of_int (totalCapacity [infants\<lparr>capacity := 40\<rparr>]))))"
proof -
  have a: "mathRound (jsTimes (jsDivide 23 40) 100) = Finite 57"
    by code_simp
  have b: "round (100 * rat_of_int 23 / rat_of_int 40) = 58"
    by code_simp
  show ?thesis
    unfolding totalCapacityPercentage_def cohort_totals a b by simp
qed

theorem totals_and_percentage_witness:
  "distinct (map c_id [infants\<lparr>capacity := 2\<rparr>]) \<and>
   totalCapacity [infants\<lparr>capacity := 2\<rparr>] = 2 \<and>
   totalEnrolled [infants\<lparr>capacity := 2\<rparr>]
     (forecastStats monthCalendar june2025 [infants\<lparr>capacity := 2\<rparr>] [ava, emma, mia]) = 3 \<and>
   totalVacancies [infants\<lparr>capacity := 2\<rparr>]
     (forecastStats monthCalendar june2025 [infants\<lparr>capacity := 2\<rparr>] [ava, emma, mia]) = - 1 \<and>
   totalCapacityPercentage [infants\<lparr>capacity := 2\<rparr>]
     (forecastStats monthCalendar june2025 [infants\<lparr>capacity := 2\<rparr>] [ava, emma, mia]) = Finite 150"
proof -
  define cs where "cs = [infants\<lparr>capacity := 2\<rparr>]"
  define stats where "stats = forecastStats monthCalendar june2025 cs [ava, emma, mia]"
  have d: "distinct (map c_id cs)" by (simp add: cs_def)
  note t = totals_and_percentage[OF d, of monthCalendar june2025 "[ava, emma, mia]",
      unfolded Let_def, folded stats_def]
  have cap: "totalCapacity cs = 2"
    using t by (simp add: cs_def infants_def)
  have "enrolledCount stats (c_id (infants\<lparr>capacity := 2\<rparr>)) = 3"
    unfolding stats_def cs_def
    by (simp add: enrolledCount_def forecastStats_eq length_sortBy example_simps)
  then have enr: "totalEnrolled cs stats = 3"
    using t by (simp add: cs_def)
  have vac: "totalVacancies cs stats = - 1"
    using t cap enr by simp
  obtain p where p: "totalCapacityPercentage cs stats = Finite (of_int p)"
    and near: "\<bar>rat_of_int p - 100 * of_int (totalEnrolled cs stats) / of_int (totalCapacity cs)\<bar> \<le> 1 / 2"
    using t cap by auto
  have "\<bar>rat_of_int p - rat_of_int 150\<bar> \<le> 1 / 2"
    using near by (simp add: cap enr)
  then have "\<bar>rat_of_int (p - 150)\<bar> < rat_of_int 1" by simp
  then have "\<bar>p - 150\<bar> < 1" by (simp only: of_int_abs[symmetric] of_int_less_iff)
  then have "p = 150" by linarith
  then have "totalCapacityPercentage cs stats = Finite 150" using p by simp
  then show ?thesis
    using d cap enr vac unfolding stats_def cs_def by blast
qed

section \<open>Properties of the server\<close>

subsection \<open>Creating a classroom\<close>

lemma textColumn_string: "textColumn (Some (JString s)) = Some s"
  by (simp add: textColumn_def)

lemma integerColumn_of_int:
  "- 2147483648 \<le> k \<Longrightarrow> k \<le> 2147483647 \<Longrightarrow> integerColumn (Some (JNumber (of_int k))) = Some k"
proof -
  assume a: "- 2147483648 \<le> k" "k \<le> 2147483647"
  have "rat_of_int (- 2147483648) \<le> of_int k" "rat_of_int k \<le> of_int 2147483647"
    using a by (simp_all only: of_int_le_iff)
  then show ?thesis by (simp add: integerColumn_def)
qed

lemma textColumn_None_iff: "textColumn v = None \<longleftrightarrow> \<not> isString v"
  by (simp add: textColumn_def isString_def split: option.splits json.splits)

lemma integerColumn_None_iff: "integerColumn v = None \<longleftrightarrow> \<not> isInt32 v"
  by (auto simp: integerColumn_def isInt32_def split: option.splits json.splits)

lemma safeParse_None_iff:
  "insertClassroomSchema_safeParse body = None \<longleftrightarrow> \<not> wellTypedClassroomBody body"
proof (cases body)
  case (JObject entries)
  have "insertClassroomSchema_safeParse (JObject entries) = None \<longleftrightarrow>
        textColumn (map_of entries ''name'') = None \<or> textColumn (map_of entries ''color'') = None \<or>
        integerColumn (map_of entries ''minAgeMonths'') = None \<or>
        integerColumn (map_of entries ''maxAgeMonths'') = None \<or>
        integerColumn (map_of entries ''capacity'') = None \<or>
        textColumn (map_of entries ''ratio'') = None"
    by (cases "textColumn (map_of entries ''name'')"; cases "textColumn (map_of entries ''color'')";
        cases "integerColumn (map_of entries ''minAgeMonths'')";
        cases "integerColumn (map_of entries ''maxAgeMonths'')";
        cases "integerColumn (map_of entries ''capacity'')";
        cases "textColumn (map_of entries ''ratio'')")
      (simp_all add: insertClassroomSchema_safeParse_def)
  then show ?thesis
    by (simp add: JObject wellTypedClassroomBody_def textColumn_None_iff integerColumn_None_iff)
qed (simp_all add: insertClassroomSchema_safeParse_def wellTypedClassroomBody_def)

lemma postClassroom_400_iff:
  "fst (postClassroom body db) = Status400 \<longleftrightarrow> insertClassroomSchema_safeParse body = None"
  by (simp add: postClassroom_def split: option.splits sum.splits prod.splits)

text \<open>
  Claim C3 fails as stated: a body with capacity 0, or with a negative capacity, passes
  the schema, is stored and is answered with 201.
\<close>
theorem post_nonpositive_capacity_counterexample:
  "postClassroom (roomBody 0) emptyDb =
     (Status201 \<lparr>c_id = 1, c_name = ''Annex'', color = ''grey'', minAgeMonths = 0,
                  maxAgeMonths = 12, capacity = 0, ratio = ''1:4''\<rparr>,
      \<lparr>classroomRows = [\<lparr>c_id = 1, c_name = ''Annex'', color = ''grey'', minAgeMonths = 0,
                           maxAgeMonths = 12, capacity = 0, ratio = ''1:4''\<rparr>],
       classroomIdSeq = 1\<rparr>) \<and>
   postClassroom (roomBody (- 5)) emptyDb =
     (Status201 \<lparr>c_id = 1, c_name = ''Annex'', color = ''grey'', minAgeMonths = 0,
                  maxAgeMonths = 12, capacity = - 5, ratio = ''1:4''\<rparr>,
      \<lparr>classroomRows = [\<lparr>c_id = 1, c_name = ''Annex'', color = ''grey'', minAgeMonths = 0,
                           maxAgeMonths = 12, capacity = - 5, ratio = ''1:4''\<rparr>],
       classroomIdSeq = 1\<rparr>)"
  by (simp add: postClassroom_def roomBody_def emptyDb_def insertClassroomSchema_safeParse_def
      textColumn_def integerColumn_def createClassroom_def holdsNul_def Let_def)

text \<open>
  Claim C3, as amended. \<open>POST /api/classrooms\<close> answers 400 exactly when the body is not
  an object that has every column with the type of the column, and then the store is
  left as it is. The schema asks nothing about the sign of the capacity: whatever the
  three integers of a well-typed body are, zero and negative capacities included, the
  record is stored under the next id and answered with 201 (provided the database takes
  the row: no NUL byte in its text, ids not exhausted).
\<close>
theorem post_classroom_validation:
  "(fst (postClassroom body db) = Status400 \<longleftrightarrow> \<not> wellTypedClassroomBody body) \<and>
   (fst (postClassroom body db) = Status400 \<longrightarrow> snd (postClassroom body db) = db) \<and>
   (\<forall>entries n col mn mx cap r.
      body = JObject entries \<and>
      map_of entries ''name'' = Some (JString n) \<and>
      map_of entries ''color'' = Some (JString col) \<and>
      map_of entries ''minAgeMonths'' = Some (JNumber (of_int mn)) \<and>
      map_of entries ''maxAgeMonths'' = Some (JNumber (of_int mx)) \<and>
      map_of entries ''capacity'' = Some (JNumber (of_int cap)) \<and>
      map_of entries ''ratio'' = Some (JString r) \<and>
      - 2147483648 \<le> mn \<and> mn \<le> 2147483647 \<and>
      - 2147483648 \<le> mx \<and> mx \<le> 2147483647 \<and>
      - 2147483648 \<le> cap \<and> cap \<le> 2147483647 \<and>
      \<not> holdsNul n \<and> \<not> holdsNul col \<and> \<not> holdsNul r \<and>
      classroomIdSeq db < 2147483647 \<longrightarrow>
      postClassroom body db =
        (Status201 \<lparr>c_id = classroomIdSeq db + 1, c_name = n, color = col, minAgeMonths = mn,
                     maxAgeMonths = mx, capacity = cap, ratio = r\<rparr>,
         db\<lparr>classroomRows := classroomRows db @
                [\<lparr>c_id = classroomIdSeq db + 1, c_name = n, color = col, minAgeMonths = mn,
                  maxAgeMonths = mx, capacity = cap, ratio = r\<rparr>],
            classroomIdSeq := classroomIdSeq db + 1\<rparr>))"
proof (intro conjI allI impI)
  show "fst (postClassroom body db) = Status400 \<longleftrightarrow> \<not> wellTypedClassroomBody body"
    by (simp only: postClassroom_400_iff safeParse_None_iff)
next
  assume "fst (postClassroom body db) = Status400"
  then have "insertClassroomSchema_safeParse body = None"
    by (simp only: postClassroom_400_iff)
  then show "snd (postClassroom body db) = db"
    by (simp add: postClassroom_def)
next
  fix entries n col mn mx cap r
  assume a: "body = JObject entries \<and>
      map_of entries ''name'' = Some (JString n) \<and>
      map_of entries ''color'' = Some (JString col) \<and>
      map_of entries ''minAgeMonths'' = Some (JNumber (of_int mn)) \<and>
      map_of entries ''maxAgeMonths'' = Some (JNumber (of_int mx)) \<and>
      map_of entries ''capacity'' = Some (JNumber (of_int cap)) \<and>
      map_of entries ''ratio'' = Some (JString r) \<and>
      - 2147483648 \<le> mn \<and> mn \<le> 2147483647 \<and>
      - 2147483648 \<le> mx \<and> mx \<le> 2147483647 \<and>
      - 2147483648 \<le> cap \<and> cap \<le> 2147483647 \<and>
      \<not> holdsNul n \<and> \<not> holdsNul col \<and> \<not> holdsNul r \<and>
      classroomIdSeq db < 2147483647"
  then have ints: "integerColumn (Some (JNumber (of_int mn))) = Some mn"
    "integerColumn (Some (JNumber (of_int mx))) = Some mx"
    "integerColumn (Some (JNumber (of_int cap))) = Some cap"
    by (simp_all add: integerColumn_of_int)
  have parsed: "insertClassroomSchema_safeParse body =
      Some \<lparr>ins_name = n, ins_color = col, ins_minAgeMonths = mn, ins_maxAgeMonths = mx,
            ins_capacity = cap, ins_ratio = r\<rparr>"
    using a by (simp add: insertClassroomSchema_safeParse_def textColumn_string ints)
  show "postClassroom body db =
        (Status201 \<lparr>c_id = classroomIdSeq db + 1, c_name = n, color = col, minAgeMonths = mn,
                     maxAgeMonths = mx, capacity = cap, ratio = r\<rparr>,
         db\<lparr>classroomRows := classroomRows db @
                [\<lparr>c_id = classroomIdSeq db + 1, c_name = n, color = col, minAgeMonths = mn,
                  maxAgeMonths = mx, capacity = cap, ratio = r\<rparr>],
            classroomIdSeq := classroomIdSeq db + 1\<rparr>)"
    unfolding postClassroom_def parsed using a
    by (simp add: createClassroom_def Let_def)
qed

theorem post_classroom_validation_witness:
  "\<not> wellTypedClassroomBody (JObject [(''name'', JString ''Annex'')]) \<and>
   postClassroom (JObject [(''name'', JString ''Annex'')]) seededDb = (Status400, seededDb) \<and>
   wellTypedClassroomBody (roomBody (- 5)) \<and>
   fst (postClassroom (roomBody (- 5)) seededDb) \<noteq> Status400 \<and>
   postClassroom (roomBody (- 5)) seededDb =
     (Status201 \<lparr>c_id = 3, c_name = ''Annex'', color = ''grey'', minAgeMonths = 0,
                  maxAgeMonths = 12, capacity = - 5, ratio = ''1:4''\<rparr>,
      \<lparr>classroomRows = [infants, wobblers,
                         \<lparr>c_id = 3, c_name = ''Annex'', color = ''grey'', minAgeMonths = 0,
                           maxAgeMonths = 12, capacity = - 5, ratio = ''1:4''\<rparr>],
       classroomIdSeq = 3\<rparr>)"
proof -
  have bad: "\<not> wellTypedClassroomBody (JObject [(''name'', JString ''Annex'')])"
    by (simp add: wellTypedClassroomBody_def isString_def)
  note t1 = post_classroom_validation[where body = "JObject [(''name'', JString ''Annex'')]"
      and db = seededDb]
  have "fst (postClassroom (JObject [(''name'', JString ''Annex'')]) seededDb) = Status400"
    using t1 bad by blast
  moreover from this have "snd (postClassroom (JObject [(''name'', JString ''Annex'')]) seededDb) = seededDb"
    using t1 by blast
  ultimately have r1: "postClassroom (JObject [(''name'', JString ''Annex'')]) seededDb =
      (Status400, seededDb)"
    by (simp add: prod_eq_iff)
  have good: "wellTypedClassroomBody (roomBody (- 5))"
    by (simp add: wellTypedClassroomBody_def roomBody_def isString_def isInt32_def)
  note t2 = post_classroom_validation[where body = "roomBody (- 5)" and db = seededDb]
  have r2: "fst (postClassroom (roomBody (- 5)) seededDb) \<noteq> Status400"
    using t2 good by blast
  have r3: "postClassroom (roomBody (- 5)) seededDb =
     (Status201 \<lparr>c_id = 3, c_name = ''Annex'', color = ''grey'', minAgeMonths = 0,
                  maxAgeMonths = 12, capacity = - 5, ratio = ''1:4''\<rparr>,
      \<lparr>classroomRows = [infants, wobblers,
                         \<lparr>c_id = 3, c_name = ''Annex'', color = ''grey'', minAgeMonths = 0,
                           maxAgeMonths = 12, capacity = - 5, ratio = ''1:4''\<rparr>],
       classroomIdSeq = 3\<rparr>)"
    using t2[THEN conjunct2, THEN conjunct2, rule_format,
        of "[(''name'', JString ''Annex''), (''color'', JString ''grey''),
             (''minAgeMonths'', JNumber 0), (''maxAgeMonths'', JNumber 12),
             (''capacity'', JNumber (of_int (- 5))), (''ratio'', JString ''1:4'')]"
           "''Annex''" "''grey''" 0 12 "- 5" "''1:4''"]
    by (simp add: roomBody_def seededDb_def holdsNul_def)
  show ?thesis using bad r1 good r2 r3 by blast
qed

subsection \<open>Updating a classroom\<close>

lemma applyPatch_fields:
  "c_id (applyPatch data row) = c_id row"
  "c_name (applyPatch data row) = (case set_name data of None \<Rightarrow> c_name row | Some v \<Rightarrow> v)"
  "color (applyPatch data row) = (case set_color data of None \<Rightarrow> color row | Some v \<Rightarrow> v)"
  "minAgeMonths (applyPatch data row) =
     (case set_minAgeMonths data of None \<Rightarrow> minAgeMonths row | Some v \<Rightarrow> v)"
  "maxAgeMonths (applyPatch data row) =
     (case set_maxAgeMonths data of None \<Rightarrow> maxAgeMonths row | Some v \<Rightarrow> v)"
  "capacity (applyPatch data row) = (case set_capacity data of None \<Rightarrow> capacity row | Some v \<Rightarrow> v)"
  "ratio (applyPatch data row) = (case set_ratio data of None \<Rightarrow> ratio row | Some v \<Rightarrow> v)"
  by (simp_all add: applyPatch_def)

lemma filter_updated_rows:
  "filter (\<lambda>row. c_id row = i) (map (\<lambda>row. if c_id row = i then applyPatch data row else row) rows) =
     map (applyPatch data) (filter (\<lambda>row. c_id row = i) rows)"
  by (induction rows) (simp_all add: applyPatch_fields(1))

text \<open>
  What \<open>updateClassroom\<close> does with a patch that names at least one column (and holds
  no NUL byte): the rows
  with the given id get the named columns set and keep the others, the id included;
  every other row stays as it is; the first row updated is returned. Without a row of
  that id nothing is returned and the store stays as it is.
\<close>

lemma updateClassroom_named_columns:
  assumes "\<not> namesNoColumn data" and "\<not> patchHoldsNul data"
  shows "updateClassroom i data db =
     Inr (map_option (applyPatch data) (find (\<lambda>row. c_id row = i) (classroomRows db)),
          db\<lparr>classroomRows :=
               map (\<lambda>row. if c_id row = i then applyPatch data row else row) (classroomRows db)\<rparr>)"
proof -
  have "(case map (applyPatch data) (filter (\<lambda>row. c_id row = i) rows) of
           [] \<Rightarrow> None | updated # _ \<Rightarrow> Some updated)
        = map_option (applyPatch data) (find (\<lambda>row. c_id row = i) rows)" for rows
    by (induction rows) simp_all
  then show ?thesis
    using assms by (simp add: updateClassroom_def Let_def filter_updated_rows)
qed

lemma updateClassroom_absent:
  assumes "\<not> namesNoColumn data" and "\<not> patchHoldsNul data"
    and "\<forall>row \<in> set (classroomRows db). c_id row \<noteq> i"
  shows "updateClassroom i data db = Inr (None, db)"
proof -
  have "find (\<lambda>row. c_id row = i) (classroomRows db) = None"
    using assms(3) by (simp add: find_None_iff)
  moreover have "map (\<lambda>row. if c_id row = i then applyPatch data row else row) (classroomRows db) =
      classroomRows db"
    using assms(3) by (induction "classroomRows db") (auto intro: map_idI)
  ultimately show ?thesis
    by (simp add: updateClassroom_named_columns[OF assms(1,2)])
qed

text \<open>
  Claim C9 holds for every patch that names a column (the two lemmas above) and fails
  for the patch that names none, which the route accepts as a valid body: the update is
  refused before any row is looked at, so a missing id gives no \<open>undefined\<close> and no 404,
  and an existing record is not returned either. The store is untouched in both cases.
  A patch that names a column gets the 404 for the same missing id.
\<close>
theorem patch_naming_no_column_is_unanswered:
  "partialClassroomSchema_safeParse (JObject []) = Some emptyPatch \<and>
   updateClassroom 7 emptyPatch seededDb = Inl NoValuesToSet \<and>
   patchClassroom (Some 7) (JObject []) seededDb = (Unanswered, seededDb) \<and>
   patchClassroom (Some 1) (JObject []) seededDb = (Unanswered, seededDb) \<and>
   patchClassroom (Some 7) (JObject [(''capacity'', JNumber 9)]) seededDb = (Status404, seededDb)"
proof -
  have p: "partialClassroomSchema_safeParse (JObject []) = Some emptyPatch"
    by (simp add: partialClassroomSchema_safeParse_def optionalColumn_def emptyPatch_def)
  have e: "namesNoColumn emptyPatch"
    by (simp add: namesNoColumn_def emptyPatch_def)
  have u: "updateClassroom i emptyPatch seededDb = Inl NoValuesToSet" for i
    using e by (simp add: updateClassroom_def)
  have q: "partialClassroomSchema_safeParse (JObject [(''capacity'', JNumber 9)]) =
      Some (emptyPatch\<lparr>set_capacity := Some 9\<rparr>)"
    by (simp add: partialClassroomSchema_safeParse_def optionalColumn_def emptyPatch_def
        integerColumn_def)
  have "\<not> namesNoColumn (emptyPatch\<lparr>set_capacity := Some 9\<rparr>)"
    by (simp add: namesNoColumn_def)
  moreover have "\<not> patchHoldsNul (emptyPatch\<lparr>set_capacity := Some 9\<rparr>)"
    by (simp add: patchHoldsNul_def emptyPatch_def)
  moreover have "\<forall>row \<in> set (classroomRows seededDb). c_id row \<noteq> 7"
    by (simp add: seededDb_def infants_def wobblers_def)
  ultimately have a: "updateClassroom 7 (emptyPatch\<lparr>set_capacity := Some 9\<rparr>) seededDb = Inr (None, seededDb)"
    by (rule updateClassroom_absent)
  show ?thesis
    by (simp add: patchClassroom_def p u q a)
qed

end
